theory Spec2Isabelle
  imports Main "HOL-Library.AList"
begin

section \<open>Python values\<close>

text \<open>
  A NumPy array is its shape, its element type and its elements in row-major order.
  The element type is the name of the dtype; an element is kept as an integer (the
  value the buffer holds at that position).  A real array always satisfies
  \<open>wf_ndarray\<close>: it holds as many elements as its shape says.
\<close>

type_synonym dtype = string

record ndarray =
  shape :: "nat list"
  dtype :: dtype
  data :: "int list"

definition wf_ndarray :: "ndarray \<Rightarrow> bool" where
  "wf_ndarray a = (length (data a) = prod_list (shape a))"

datatype pyobj =
    PyNone
  | PyBool bool
  | PyInt int
  | PyStr string
  | PyList "pyobj list"
  | PyTuple "pyobj list"
  | PyDict "(pyobj \<times> pyobj) list"
  | PyDtype dtype
  | NDArray ndarray

text \<open>\<open>isinstance(obj, np.ndarray)\<close>\<close>

fun is_ndarray :: "pyobj \<Rightarrow> bool" where
  "is_ndarray (NDArray a) = True"
| "is_ndarray _ = False"

text \<open>\<open>obj.__class__.__name__\<close>\<close>

fun class_name :: "pyobj \<Rightarrow> string" where
  "class_name PyNone = ''NoneType''"
| "class_name (PyBool b) = ''bool''"
| "class_name (PyInt i) = ''int''"
| "class_name (PyStr s) = ''str''"
| "class_name (PyList xs) = ''list''"
| "class_name (PyTuple xs) = ''tuple''"
| "class_name (PyDict kvs) = ''dict''"
| "class_name (PyDtype d) = ''dtype''"
| "class_name (NDArray a) = ''ndarray''"

text \<open>The exceptions the two modules raise or let through.\<close>

datatype error =
    TypeError
  | ValueError
  | IndexError
  | KeyError
  | AttributeError
  | OverflowError
  | SystemError
  | MPIError
  | InputError_bytes int int
  | InputError_too_large

text \<open>
  What a call does on one rank: it returns a value, it raises, or it blocks for ever in
  the transport because the matching call of another rank never comes.
\<close>

datatype 'a outcome = Returns 'a | Raises error | Stalls

section \<open>The NumPy operations the wrapper uses\<close>

text \<open>
  NumPy is a library outside the repository; its operations are written down here as
  NumPy 1.24 to 1.26 perform them on the values of the model (\<open>np.product\<close> is gone
  from NumPy 2).
\<close>

text \<open>
  What the process supplies beyond the code: the size in bytes of the pickle of an
  object (the generic primitives of the transport send pickles), the result of
  \<open>obj.__sizeof__()\<close>, and the value that \<open>np.empty\<close> happens to leave at each
  position of a new buffer.  Three more concern elements of different types: the
  elements that a block of a buffer holds after the bytes of a message of another
  element type were copied to its start (\<open>None\<close> when the bytes do not fit), the
  conversion of a value of one element type to another where one of the two is no
  integer type, and the element type that NumPy gives to an array built from elements
  of two types.
  The properties below hold whatever these are.
\<close>

record runtime =
  pickle_size :: "pyobj \<Rightarrow> nat"
  sizeof :: "pyobj \<Rightarrow> int"
  uninit :: "nat \<Rightarrow> int"
  raw_copy :: "dtype \<Rightarrow> int list \<Rightarrow> dtype \<Rightarrow> int list \<Rightarrow> int list option"
  astype :: "dtype \<Rightarrow> dtype \<Rightarrow> int \<Rightarrow> int"
  promote :: "dtype \<Rightarrow> dtype \<Rightarrow> dtype"

text \<open>
  The integer types of NumPy: whether the type is signed, and its width in bits; and
  the number that the lowest bits of an integer are in such a type.
\<close>

definition int_type :: "dtype \<Rightarrow> (bool \<times> nat) option" where
  "int_type d =
     (if d = ''int8'' then Some (True, 8) else if d = ''int16'' then Some (True, 16)
      else if d = ''int32'' then Some (True, 32) else if d = ''int64'' then Some (True, 64)
      else if d = ''uint8'' then Some (False, 8) else if d = ''uint16'' then Some (False, 16)
      else if d = ''uint32'' then Some (False, 32) else if d = ''uint64'' then Some (False, 64)
      else None)"

fun wrap :: "bool \<times> nat \<Rightarrow> int \<Rightarrow> int" where
  "wrap (True, w) v = (v + 2 ^ (w - 1)) mod 2 ^ w - 2 ^ (w - 1)"
| "wrap (False, w) v = v mod 2 ^ w"

text \<open>
  An element of the type \<open>src\<close> as NumPy stores it in an array of the type \<open>dst\<close>; an
  assignment to an array converts as a cast of C does.  The element stays as it is when
  the types are the same.  Between two integer types it is cut to the width of the
  target.  Any other conversion is the runtime's, and an integer type holds the result
  within its width.
\<close>

definition np_cast :: "runtime \<Rightarrow> dtype \<Rightarrow> dtype \<Rightarrow> int \<Rightarrow> int" where
  "np_cast rt src dst v =
     (if src = dst then v
      else
        let u = (if int_type src \<noteq> None \<and> int_type dst \<noteq> None then v
                 else astype rt src dst v)
        in (case int_type dst of Some t \<Rightarrow> wrap t u | None \<Rightarrow> u))"

text \<open>\<open>np.empty(shape, dtype)\<close>: a new array whose contents are not initialised.\<close>

definition np_empty :: "runtime \<Rightarrow> nat list \<Rightarrow> dtype \<Rightarrow> ndarray" where
  "np_empty rt shp d = \<lparr>shape = shp, dtype = d, data = map (uninit rt) [0..<prod_list shp]\<rparr>"

text \<open>\<open>np.all(obj.shape)\<close>: no extent is zero.\<close>

definition np_all :: "nat list \<Rightarrow> bool" where
  "np_all shp = (\<forall>n \<in> set shp. n \<noteq> 0)"

text \<open>\<open>obj.ravel()\<close>: the same elements as a one-dimensional array.\<close>

definition ravel :: "ndarray \<Rightarrow> ndarray" where
  "ravel a = \<lparr>shape = [prod_list (shape a)], dtype = dtype a, data = data a\<rparr>"

text \<open>\<open>obj.shape\<close> as the Python value it is, a tuple of integers, and back.\<close>

definition shape_tuple :: "nat list \<Rightarrow> pyobj" where
  "shape_tuple shp = PyTuple (map (\<lambda>n. PyInt (int n)) shp)"

fun as_dim :: "pyobj \<Rightarrow> nat option" where
  "as_dim (PyInt i) = (if 0 \<le> i then Some (nat i) else None)"
| "as_dim _ = None"

fun as_shape :: "pyobj \<Rightarrow> nat list option" where
  "as_shape (PyTuple xs) = those (map as_dim xs)"
| "as_shape (PyList xs) = those (map as_dim xs)"
| "as_shape _ = None"

text \<open>
  \<open>np.max(shapes, axis=0)\<close> for the list of the ranks' shapes: the maximum along the
  ranks, axis by axis.  The list must be rectangular: NumPy raises \<open>ValueError\<close> when
  the shapes differ in length (before 1.24 it built an array of tuple objects and
  compared the tuples, which is not modelled), and there is no maximum of no shape.
\<close>

definition np_max_axis0 :: "pyobj list \<Rightarrow> nat list outcome" where
  "np_max_axis0 shapes =
     (case those (map as_shape shapes) of
        None \<Rightarrow> Raises ValueError
      | Some [] \<Rightarrow> Raises ValueError
      | Some (s # ss) \<Rightarrow>
          if \<forall>t \<in> set ss. length t = length s then Returns (foldl (map2 max) s ss)
          else Raises ValueError)"

text \<open>
  \<open>np.product\<close> of a sequence of integers is an integer, but of an empty sequence it is
  the float \<open>1.0\<close> (an empty array has the default element type \<open>float64\<close>).  A float is
  no extent and no slice bound: \<open>np.empty\<close> and \<open>array[:n]\<close> raise \<open>TypeError\<close> on it.
\<close>

datatype npscalar = NpInt nat | NpFloat nat

definition np_product :: "nat list \<Rightarrow> npscalar" where
  "np_product xs = (if xs = [] then NpFloat 1 else NpInt (prod_list xs))"

fun index_of :: "npscalar \<Rightarrow> nat outcome" where
  "index_of (NpInt n) = Returns n"
| "index_of (NpFloat x) = Raises TypeError"

text \<open>
  \<open>np.empty(*obj)\<close> on the receiver of a broadcast: \<open>obj\<close> is the pair of a shape and a
  dtype.
\<close>

fun np_empty_star :: "runtime \<Rightarrow> pyobj \<Rightarrow> ndarray outcome" where
  "np_empty_star rt (PyList [shp, PyDtype d]) =
     (case as_shape shp of
        Some s \<Rightarrow> Returns (np_empty rt s d)
      | None \<Rightarrow> Raises TypeError)"
| "np_empty_star rt _ = Raises TypeError"

text \<open>
  Iterating over an array yields its sub-arrays along the first axis; a
  zero-dimensional array cannot be iterated over.
\<close>

definition iter_rows :: "ndarray \<Rightarrow> ndarray list outcome" where
  "iter_rows a =
     (case shape a of
        [] \<Rightarrow> Raises TypeError
      | n # ns \<Rightarrow>
          Returns (map (\<lambda>r. \<lparr>shape = ns, dtype = dtype a,
                               data = take (prod_list ns) (drop (r * prod_list ns) (data a))\<rparr>)
                       [0..<n]))"

text \<open>\<open>array[:n]\<close> on a one-dimensional array.\<close>

definition slice_to :: "ndarray \<Rightarrow> nat \<Rightarrow> ndarray" where
  "slice_to a n = \<lparr>shape = [min n (length (data a))], dtype = dtype a, data = take n (data a)\<rparr>"

text \<open>\<open>array.reshape(shape)\<close>: \<open>ValueError\<close> unless the shape holds as many elements.\<close>

definition reshape :: "ndarray \<Rightarrow> nat list \<Rightarrow> ndarray outcome" where
  "reshape a shp =
     (if prod_list shp = length (data a) then Returns (a\<lparr>shape := shp\<rparr>)
      else Raises ValueError)"

text \<open>\<open>obj_type, obj = value\<close>\<close>

fun unpack2 :: "pyobj \<Rightarrow> (pyobj \<times> pyobj) outcome" where
  "unpack2 (PyList [a, b]) = Returns (a, b)"
| "unpack2 (PyTuple [a, b]) = Returns (a, b)"
| "unpack2 (PyList xs) = Raises ValueError"
| "unpack2 (PyTuple xs) = Raises ValueError"
| "unpack2 _ = Raises TypeError"

section \<open>The transport\<close>

text \<open>
  The communicator \<open>comm\<close> that the wrapper closes over is an \<open>MPI.Intracomm\<close> of
  mpi4py, an external collaborator whose code is not part of the repository.  Sections
  2 and 6 of the specification give its interface: a process group of fixed size with
  one rank per process, a generic broadcast and gather of arbitrary objects, which fail
  when the serialised payload exceeds \<open>2^31 - 1\<close> bytes, and a typed broadcast and
  gather of contiguous buffers, in place.  A collective is described for the whole
  group at once: the transport gets the argument of every rank, in rank order, and says
  what the call does on one rank.  A buffer is transferred as the elements it holds;
  the typed gather leaves to the runtime what a transfer between buffers of different
  element types does to the bytes.
\<close>

text \<open>
  Modelled from the spec: the ceiling of the generic path of the transport (section 6),
  \<open>2^31 - 1\<close> bytes.
\<close>

definition transport_ceiling :: nat where
  "transport_ceiling = 2 ^ 31 - 1"

text \<open>
  Modelled from the spec: \<open>generic_broadcast(value, root)\<close> of the transport, the
  \<open>comm.bcast(obj, root)\<close> of mpi4py.  Every rank gets the object of the root.  When
  its pickle exceeds the ceiling the root raises \<open>OverflowError\<close> and sends nothing, so
  the other ranks wait for ever.
\<close>

definition comm_bcast :: "runtime \<Rightarrow> pyobj list \<Rightarrow> nat \<Rightarrow> nat \<Rightarrow> pyobj outcome" where
  "comm_bcast rt objs root rank =
     (if length objs \<le> root then Raises MPIError
      else if transport_ceiling < pickle_size rt (objs ! root) then
        (if rank = root then Raises OverflowError else Stalls)
      else Returns (objs ! root))"

text \<open>
  Modelled from the spec: \<open>typed_broadcast(buffer, root)\<close> of the transport, the
  \<open>comm.Bcast(buf, root)\<close> of mpi4py, on a rank whose buffer is \<open>buf\<close>, the root's being
  \<open>src\<close>.  The buffer of the rank holds the elements of the root's buffer afterwards.
  Both must hold the same number of elements.  (In \<open>bcast\<close> the buffer of a receiver
  is allocated from the descriptor of the root's array, so it always has the element
  type of \<open>src\<close>.)
\<close>

definition comm_Bcast :: "ndarray \<Rightarrow> ndarray \<Rightarrow> ndarray outcome" where
  "comm_Bcast src buf =
     (if length (data buf) = length (data src) then Returns (buf\<lparr>data := data src\<rparr>)
      else Raises MPIError)"

text \<open>
  Modelled from the spec: \<open>generic_gather(value, root)\<close> of the transport, the
  \<open>comm.gather(obj, root)\<close> of mpi4py.  The root gets the list of all objects in rank
  order, the other ranks get \<open>None\<close>.  The root raises \<open>SystemError\<close> when the pickles
  together exceed the ceiling.
\<close>

definition comm_gather :: "runtime \<Rightarrow> pyobj list \<Rightarrow> nat \<Rightarrow> nat \<Rightarrow> pyobj outcome" where
  "comm_gather rt objs root rank =
     (if length objs \<le> root then Raises MPIError
      else if rank = root then
        (if transport_ceiling < sum_list (map (pickle_size rt) objs) then Raises SystemError
         else Returns (PyList objs))
      else Returns PyNone)"

text \<open>
  Modelled from the spec: a block of the receive buffer of a typed gather, for a
  message of the block's element type.  A typed transfer is a raw memory copy
  (glossary of the specification), so the block holds the elements of the message from
  its start on; the rest of the block keeps what it held (the gather of section 8, of
  arrays of lengths 2, 5 and 3, needs blocks that take shorter messages).  The
  specification does not say what becomes of a message that is longer than its block;
  MPI refuses it as truncated, and so does the model: there is no block then.
\<close>

definition fill_block :: "int list \<Rightarrow> int list \<Rightarrow> int list option" where
  "fill_block block msg =
     (if length msg \<le> length block then Some (msg @ drop (length msg) block) else None)"

text \<open>
  Modelled from the spec: the block of a receive buffer of element type \<open>d\<close> after the
  send buffer of its rank has arrived.  When the send buffer has another element type,
  its bytes land in the block all the same, and what elements the block holds then is
  for the runtime to say.
\<close>

definition receive_block :: "runtime \<Rightarrow> dtype \<Rightarrow> int list \<Rightarrow> ndarray \<Rightarrow> int list option" where
  "receive_block rt d block sendbuf =
     (if dtype sendbuf = d then fill_block block (data sendbuf)
      else raw_copy rt d block (dtype sendbuf) (data sendbuf))"

text \<open>
  Modelled from the spec: \<open>typed_gather(send_buffer, receive_buffer, root)\<close> of the
  transport on the root, the \<open>comm.Gatherv(sendbuf, recvbuf, root)\<close> of mpi4py with a
  plain array as receive buffer.  The buffer is cut into as many blocks of equal length
  as there are ranks (\<open>ValueError\<close> when that cannot be done), and block \<open>r\<close> receives
  what rank \<open>r\<close> sends.  The call fails when a message does not fit its block.
\<close>

definition comm_Gatherv :: "runtime \<Rightarrow> ndarray list \<Rightarrow> ndarray \<Rightarrow> ndarray outcome" where
  "comm_Gatherv rt sendbufs recvbuf =
     (let blocks = length sendbufs; total = length (data recvbuf) in
        if blocks = 0 \<or> total mod blocks \<noteq> 0 then Raises ValueError
        else
          let count = total div blocks in
            (case those (map (\<lambda>r. receive_block rt (dtype recvbuf)
                                     (take count (drop (r * count) (data recvbuf)))
                                     (sendbufs ! r))
                             [0..<blocks]) of
               None \<Rightarrow> Raises MPIError
             | Some filled \<Rightarrow> Returns (recvbuf\<lparr>data := concat filled\<rparr>)))"
section \<open>BufferComm: the wrapper's broadcast and gather\<close>

text \<open>
  A call of a collective is one call on every rank.  \<open>objs\<close> holds the \<open>obj\<close> argument of
  every rank in rank order, so \<open>length objs\<close> is \<open>self._size\<close>; each function below is
  the method as it runs on the rank \<open>rank\<close> (\<open>self._rank\<close>), the calls of the other ranks
  entering through the transport.
\<close>

subsection \<open>\<open>bcast(self, obj, root)\<close>\<close>

text \<open>What the root hands to \<open>comm.bcast\<close> (lines 160 to 172).\<close>

fun bcast_message :: "pyobj \<Rightarrow> pyobj" where
  "bcast_message (NDArray a) =
     PyList [PyStr ''NumPy ndarray'', PyList [shape_tuple (shape a), PyDtype (dtype a)]]"
| "bcast_message obj = PyList [PyStr (class_name obj), obj]"

text \<open>
  The arguments of the ranks' calls of \<open>comm.bcast\<close>: the message on the root, its own
  \<open>obj\<close> on every other rank.
\<close>

definition bcast_arguments :: "pyobj list \<Rightarrow> nat \<Rightarrow> pyobj list" where
  "bcast_arguments objs root = objs[root := bcast_message (objs ! root)]"

text \<open>
  The typed broadcast on a receiver that holds the new buffer \<open>buf\<close>: it completes when
  the root takes part in it, that is when the root's payload is an array.
\<close>

fun receive_Bcast :: "pyobj \<Rightarrow> ndarray \<Rightarrow> pyobj outcome" where
  "receive_Bcast (NDArray src) buf =
     (case comm_Bcast src buf of
        Returns buf' \<Rightarrow> Returns (NDArray buf')
      | Raises e \<Rightarrow> Raises e
      | Stalls \<Rightarrow> Stalls)"
| "receive_Bcast _ buf = Stalls"

definition bcast :: "runtime \<Rightarrow> pyobj list \<Rightarrow> nat \<Rightarrow> nat \<Rightarrow> pyobj outcome" where
  "bcast rt objs root rank =
     (let obj = objs ! rank in
      if rank = root then
        (case obj of
           NDArray a \<Rightarrow>
             (case comm_bcast rt (bcast_arguments objs root) root rank of
                Raises e \<Rightarrow> Raises e
              | Stalls \<Rightarrow> Stalls
              | Returns v \<Rightarrow>
                  (case comm_Bcast a a of
                     Raises e \<Rightarrow> Raises e
                   | Stalls \<Rightarrow> Stalls
                   | Returns a' \<Rightarrow> Returns (NDArray a')))
         | _ \<Rightarrow>
             (case comm_bcast rt (bcast_arguments objs root) root rank of
                Raises e \<Rightarrow>
                  if e = OverflowError
                  then Raises (InputError_bytes (sizeof rt obj) (2 ^ 31 - 1))
                  else Raises e
              | Stalls \<Rightarrow> Stalls
              | Returns v \<Rightarrow> Returns obj))
      else
        (case comm_bcast rt (bcast_arguments objs root) root rank of
           Raises e \<Rightarrow> Raises e
         | Stalls \<Rightarrow> Stalls
         | Returns v \<Rightarrow>
             (case unpack2 v of
                Raises e \<Rightarrow> Raises e
              | Stalls \<Rightarrow> Stalls
              | Returns (obj_type, obj) \<Rightarrow>
                  if obj_type = PyStr ''NumPy ndarray'' then
                    (case np_empty_star rt obj of
                       Raises e \<Rightarrow> Raises e
                     | Stalls \<Rightarrow> Stalls
                     | Returns buf \<Rightarrow> receive_Bcast (objs ! root) buf)
                  else Returns obj)))"

subsection \<open>\<open>gather(self, obj, root)\<close>\<close>

text \<open>
  The argument of a rank's first call of \<open>comm.gather\<close>: the shape of its array (line
  231), or the object itself (line 272).
\<close>

fun gather_argument :: "pyobj \<Rightarrow> pyobj" where
  "gather_argument (NDArray a) = shape_tuple (shape a)"
| "gather_argument obj = obj"

text \<open>Lines 234 and 235: an array with an empty dimension is replaced by a dummy.\<close>

definition substitute_dummy :: "runtime \<Rightarrow> ndarray \<Rightarrow> ndarray" where
  "substitute_dummy rt obj =
     (if \<not> np_all (shape obj) then np_empty rt (replicate (length (shape obj)) 1) (dtype obj)
      else obj)"

text \<open>
  The send buffers of the ranks in the typed gather, \<open>obj.ravel()\<close> after the
  replacement.  The docstring warns that the method hangs when some but not all ranks
  pass an array: there is no typed gather of the whole group then.
\<close>

fun gather_sendbuf :: "runtime \<Rightarrow> pyobj \<Rightarrow> ndarray option" where
  "gather_sendbuf rt (NDArray a) = Some (ravel (substitute_dummy rt a))"
| "gather_sendbuf rt _ = None"

definition gather_sendbufs :: "runtime \<Rightarrow> pyobj list \<Rightarrow> ndarray list option" where
  "gather_sendbufs rt objs = those (map (gather_sendbuf rt) objs)"

text \<open>Lines 239 to 244 on the root: the buffer array for the gathered shapes.\<close>

definition gather_buff :: "runtime \<Rightarrow> nat \<Rightarrow> pyobj list \<Rightarrow> dtype \<Rightarrow> ndarray outcome" where
  "gather_buff rt comm_size shapes d =
     (case np_max_axis0 shapes of
        Raises e \<Rightarrow> Raises e
      | Stalls \<Rightarrow> Stalls
      | Returns m \<Rightarrow>
          (case index_of (np_product m) of
             Raises e \<Rightarrow> Raises e
           | Stalls \<Rightarrow> Stalls
           | Returns n \<Rightarrow> Returns (np_empty rt [comm_size, n] d)))"

text \<open>Lines 250 to 255: the loop over \<open>zip(buff, shapes)\<close> that fills \<open>arr_list\<close>.\<close>

fun gather_loop :: "ndarray list \<Rightarrow> pyobj list \<Rightarrow> pyobj list \<Rightarrow> pyobj list outcome" where
  "gather_loop (array # buff) (shp # shapes) arr_list =
     (case as_shape shp of
        None \<Rightarrow> Raises TypeError
      | Some s \<Rightarrow>
          (case index_of (np_product s) of
             Raises e \<Rightarrow> Raises e
           | Stalls \<Rightarrow> Stalls
           | Returns n \<Rightarrow>
               (case reshape (slice_to array n) s of
                  Raises e \<Rightarrow> Raises e
                | Stalls \<Rightarrow> Stalls
                | Returns array_temp \<Rightarrow>
                    gather_loop buff shapes (arr_list @ [NDArray array_temp]))))"
| "gather_loop _ _ arr_list = Returns arr_list"

text \<open>Lines 238 to 258: the root of a gather of arrays, once it has the shapes.\<close>

definition gather_root :: "runtime \<Rightarrow> pyobj list \<Rightarrow> pyobj list \<Rightarrow> ndarray \<Rightarrow> pyobj outcome" where
  "gather_root rt objs shapes obj =
     (case gather_buff rt (length objs) shapes (dtype obj) of
        Raises e \<Rightarrow> Raises e
      | Stalls \<Rightarrow> Stalls
      | Returns buff \<Rightarrow>
          (case gather_sendbufs rt objs of
             None \<Rightarrow> Stalls
           | Some sendbufs \<Rightarrow>
               (case comm_Gatherv rt sendbufs buff of
                  Raises e \<Rightarrow> Raises e
                | Stalls \<Rightarrow> Stalls
                | Returns buff' \<Rightarrow>
                    (case iter_rows buff' of
                       Raises e \<Rightarrow> Raises e
                     | Stalls \<Rightarrow> Stalls
                     | Returns rows \<Rightarrow>
                         (case gather_loop rows shapes [] of
                            Raises e \<Rightarrow> Raises e
                          | Stalls \<Rightarrow> Stalls
                          | Returns arr_list \<Rightarrow> Returns (PyList arr_list))))))"

text \<open>
  Does the root of a gather of arrays get as far as its call of \<open>comm.Gatherv\<close>?  The
  senders' calls complete only then.
\<close>

definition root_receives :: "runtime \<Rightarrow> pyobj list \<Rightarrow> nat \<Rightarrow> bool" where
  "root_receives rt objs root =
     (root < length objs \<and>
      (case objs ! root of
         NDArray a \<Rightarrow>
           (case comm_gather rt (map gather_argument objs) root root of
              Returns (PyList shapes) \<Rightarrow>
                (case gather_buff rt (length objs) shapes (dtype a) of
                   Returns buff \<Rightarrow> gather_sendbufs rt objs \<noteq> None
                 | _ \<Rightarrow> False)
            | _ \<Rightarrow> False)
       | _ \<Rightarrow> False))"

definition gather :: "runtime \<Rightarrow> pyobj list \<Rightarrow> nat \<Rightarrow> nat \<Rightarrow> pyobj outcome" where
  "gather rt objs root rank =
     (case objs ! rank of
        NDArray a \<Rightarrow>
          (case comm_gather rt (map gather_argument objs) root rank of
             Raises e \<Rightarrow> Raises e
           | Stalls \<Rightarrow> Stalls
           | Returns shapes \<Rightarrow>
               let obj = substitute_dummy rt a in
               if rank = root then
                 (case shapes of
                    PyList shapes \<Rightarrow> gather_root rt objs shapes obj
                  | _ \<Rightarrow> Raises TypeError)
               else
                 if root_receives rt objs root then Returns PyNone else Stalls)
      | obj \<Rightarrow>
          (case comm_gather rt (map gather_argument objs) root rank of
             Raises e \<Rightarrow> if e = SystemError then Raises InputError_too_large else Raises e
           | Stalls \<Rightarrow> Stalls
           | Returns buff \<Rightarrow> Returns buff))"

text \<open>
  A runtime for the examples: small pickles and zeros in new buffers.  The examples
  gather elements of one type only and convert between integer types only, so this
  runtime has no block for a typed transfer between different types, its other
  conversions leave a value as it is, and of two element types it takes the first.
\<close>

definition example_runtime :: runtime where
  "example_runtime =
     \<lparr>pickle_size = (\<lambda>obj. 64), sizeof = (\<lambda>obj. 56), uninit = (\<lambda>i. 0),
      raw_copy = (\<lambda>d block s msg. None), astype = (\<lambda>s d v. v),
      promote = (\<lambda>a b. a)\<rparr>"

text \<open>A runtime in which the pickle of a string message exceeds the ceiling.\<close>

definition oversized_runtime :: runtime where
  "oversized_runtime =
     \<lparr>pickle_size = (\<lambda>obj. case obj of PyList [PyStr t, PyStr s] \<Rightarrow> 2 ^ 31 | _ \<Rightarrow> 64),
      sizeof = (\<lambda>obj. 2 ^ 31 + 49),
      uninit = (\<lambda>i. 0),
      raw_copy = (\<lambda>d block s msg. None), astype = (\<lambda>s d v. v),
      promote = (\<lambda>a b. a)\<rparr>"

text \<open>
  A runtime with the sizes of CPython 3 on a 64-bit platform for strings, lists and
  tuples.  \<open>obj.__sizeof__()\<close> of a list is 40 bytes and 8 bytes for each element it
  refers to, of a tuple 24 bytes and 8 for each element, of a string of ASCII
  characters 49 bytes and one for each character: it counts the object itself, never
  the objects that a list or tuple refers to.  The pickle of a string holds its
  characters, the pickle of a list or tuple the pickles of its elements;
  \<open>pickled_characters\<close> counts these bytes and leaves out the few bytes of opcodes
  around them, so it is a lower bound of the length of the pickle.  The other values
  do not occur in the example; they are given the size of \<open>None\<close> and no characters.
\<close>

fun cpython_sizeof :: "pyobj \<Rightarrow> int" where
  "cpython_sizeof (PyStr s) = 49 + int (length s)"
| "cpython_sizeof (PyList xs) = 40 + 8 * int (length xs)"
| "cpython_sizeof (PyTuple xs) = 24 + 8 * int (length xs)"
| "cpython_sizeof _ = 16"

fun pickled_characters :: "pyobj \<Rightarrow> nat" where
  "pickled_characters (PyStr s) = length s"
| "pickled_characters (PyList xs) = sum_list (map pickled_characters xs)"
| "pickled_characters (PyTuple xs) = sum_list (map pickled_characters xs)"
| "pickled_characters _ = 0"

definition cpython_runtime :: runtime where
  "cpython_runtime =
     \<lparr>pickle_size = pickled_characters, sizeof = cpython_sizeof, uninit = (\<lambda>i. 0),
      raw_copy = (\<lambda>d block s msg. None), astype = (\<lambda>s d v. v),
      promote = (\<lambda>a b. a)\<rparr>"

text \<open>A string of \<open>2^31\<close> characters, \<open>'a' * 2**31\<close>.\<close>

definition long_string :: string where
  "long_string = replicate (2 ^ 31) CHR ''a''"

text \<open>
  Arrays for the examples: the gather of the specification, three ranks that send
  one-dimensional arrays of lengths 2, 5 and 3; a rank with an empty array beside a
  rank with two elements; and three ranks with matrices that differ along the first
  axis.
\<close>

definition example_arrays :: "ndarray list" where
  "example_arrays =
     [\<lparr>shape = [2], dtype = ''int64'', data = [1, 2]\<rparr>,
      \<lparr>shape = [5], dtype = ''int64'', data = [3, 4, 5, 6, 7]\<rparr>,
      \<lparr>shape = [3], dtype = ''int64'', data = [8, 9, 10]\<rparr>]"

definition example_empty_arrays :: "ndarray list" where
  "example_empty_arrays =
     [\<lparr>shape = [0], dtype = ''int64'', data = []\<rparr>,
      \<lparr>shape = [2], dtype = ''int64'', data = [5, 6]\<rparr>]"

definition example_matrices :: "ndarray list" where
  "example_matrices =
     [\<lparr>shape = [1, 2], dtype = ''int64'', data = [1, 2]\<rparr>,
      \<lparr>shape = [3, 2], dtype = ''int64'', data = [3, 4, 5, 6, 7, 8]\<rparr>,
      \<lparr>shape = [0, 2], dtype = ''int64'', data = []\<rparr>]"

text \<open>
  The invariant that the docstring of \<open>gather\<close> asks of the arrays: two shapes have the
  same number of dimensions and the same extents, except along the axis \<open>j\<close>.
\<close>

definition same_shape_except :: "nat \<Rightarrow> nat list \<Rightarrow> nat list \<Rightarrow> bool" where
  "same_shape_except j s t =
     (length s = length t \<and> (\<forall>i < length s. i \<noteq> j \<longrightarrow> s ! i = t ! i))"

section \<open>BufferComm: attribute access\<close>

text \<open>
  What \<open>getattr\<close> can give: a bound method (\<open>MethodType\<close>), a built-in method
  (\<open>BuiltinMethodType\<close>), or any other value.  \<open>method_types\<close> of line 90 are the first
  two.
\<close>

datatype attr = BoundMethod string | BuiltinMethod string | Plain pyobj

fun is_method :: "attr \<Rightarrow> bool" where
  "is_method (BoundMethod f) = True"
| "is_method (BuiltinMethod f) = True"
| "is_method (Plain v) = False"

text \<open>
  The communicator that the wrapper closes over can be of any intra-communicator class,
  so it enters through what the built-ins \<open>dir\<close>, \<open>getattr\<close>, \<open>setattr\<close> and \<open>delattr\<close> do
  on it: \<open>'c\<close> is the state of the communicator object, and setting or deleting an
  attribute gives its new state or raises.
\<close>

record 'c attribute_protocol =
  dir_of :: "'c \<Rightarrow> string list"
  getattr_of :: "'c \<Rightarrow> string \<Rightarrow> attr outcome"
  setattr_of :: "'c \<Rightarrow> string \<Rightarrow> attr \<Rightarrow> 'c outcome"
  delattr_of :: "'c \<Rightarrow> string \<Rightarrow> 'c outcome"

text \<open>
  The wrapper itself is a plain Python instance: it has an instance dict, and its class
  (\<open>BufferComm\<close> with the communicator's class behind it) has attributes, the methods
  among them.  \<open>super().__getattribute__\<close>, \<open>super().__setattr__\<close> and
  \<open>super().__delattr__\<close> are those of \<open>object\<close>: the instance dict first, then the class.
  (The properties of the communicator's class are data descriptors and would come
  first, but their names are attributes of the communicator with plain values, so the
  wrapper never looks them up here.)
\<close>

record wrapper =
  class_attrs :: "string \<rightharpoonup> attr"
  instance_dict :: "string \<rightharpoonup> attr"

definition super_getattribute :: "wrapper \<Rightarrow> string \<Rightarrow> attr outcome" where
  "super_getattribute self name =
     (case instance_dict self name of
        Some v \<Rightarrow> Returns v
      | None \<Rightarrow>
          (case class_attrs self name of
             Some v \<Rightarrow> Returns v
           | None \<Rightarrow> Raises AttributeError))"

definition super_setattr :: "wrapper \<Rightarrow> string \<Rightarrow> attr \<Rightarrow> wrapper outcome" where
  "super_setattr self name v = Returns (self\<lparr>instance_dict := (instance_dict self)(name \<mapsto> v)\<rparr>)"

definition super_delattr :: "wrapper \<Rightarrow> string \<Rightarrow> wrapper outcome" where
  "super_delattr self name =
     (case instance_dict self name of
        Some v \<Rightarrow> Returns (self\<lparr>instance_dict := (instance_dict self)(name := None)\<rparr>)
      | None \<Rightarrow> Raises AttributeError)"

text \<open>
  The test of lines 108, 115 and 123:
  \<open>name in dir(comm) and not isinstance(getattr(comm, name), method_types)\<close>.  An
  exception of \<open>getattr\<close> goes on to the caller.
\<close>

definition uses_comm :: "'c attribute_protocol \<Rightarrow> 'c \<Rightarrow> string \<Rightarrow> bool outcome" where
  "uses_comm pr comm name =
     (if name \<in> set (dir_of pr comm) then
        (case getattr_of pr comm name of
           Returns v \<Rightarrow> Returns (\<not> is_method v)
         | Raises e \<Rightarrow> Raises e
         | Stalls \<Rightarrow> Stalls)
      else Returns False)"

text \<open>
  The three methods act on the communicator \<open>comm\<close> and the wrapper \<open>self\<close>; the two that
  change an attribute give the new states of both.
\<close>

definition BufferComm_getattribute ::
  "'c attribute_protocol \<Rightarrow> 'c \<Rightarrow> wrapper \<Rightarrow> string \<Rightarrow> attr outcome" where
  "BufferComm_getattribute pr comm self name =
     (case uses_comm pr comm name of
        Returns b \<Rightarrow>
          if b then getattr_of pr comm name
          else super_getattribute self name
      | Raises e \<Rightarrow> Raises e
      | Stalls \<Rightarrow> Stalls)"

definition BufferComm_setattr ::
  "'c attribute_protocol \<Rightarrow> 'c \<Rightarrow> wrapper \<Rightarrow> string \<Rightarrow> attr \<Rightarrow> ('c \<times> wrapper) outcome" where
  "BufferComm_setattr pr comm self name v =
     (case uses_comm pr comm name of
        Returns b \<Rightarrow>
          if b then
            (case setattr_of pr comm name v of
               Returns comm' \<Rightarrow> Returns (comm', self)
             | Raises e \<Rightarrow> Raises e
             | Stalls \<Rightarrow> Stalls)
          else
            (case super_setattr self name v of
               Returns self' \<Rightarrow> Returns (comm, self')
             | Raises e \<Rightarrow> Raises e
             | Stalls \<Rightarrow> Stalls)
      | Raises e \<Rightarrow> Raises e
      | Stalls \<Rightarrow> Stalls)"

definition BufferComm_delattr ::
  "'c attribute_protocol \<Rightarrow> 'c \<Rightarrow> wrapper \<Rightarrow> string \<Rightarrow> ('c \<times> wrapper) outcome" where
  "BufferComm_delattr pr comm self name =
     (case uses_comm pr comm name of
        Returns b \<Rightarrow>
          if b then
            (case delattr_of pr comm name of
               Returns comm' \<Rightarrow> Returns (comm', self)
             | Raises e \<Rightarrow> Raises e
             | Stalls \<Rightarrow> Stalls)
          else
            (case super_delattr self name of
               Returns self' \<Rightarrow> Returns (comm, self')
             | Raises e \<Rightarrow> Raises e
             | Stalls \<Rightarrow> Stalls)
      | Raises e \<Rightarrow> Raises e
      | Stalls \<Rightarrow> Stalls)"

text \<open>\<open>def __dir__(self): return(dir(comm))\<close>\<close>

definition BufferComm_dir :: "'c attribute_protocol \<Rightarrow> 'c \<Rightarrow> wrapper \<Rightarrow> string list" where
  "BufferComm_dir pr comm self = dir_of pr comm"

subsection \<open>The attributes of a dummyMPI communicator\<close>

text \<open>
  An instance of \<open>dummyMPI.Comm\<close> (or \<open>Intracomm\<close>) is its instance dict; \<open>__init__\<close>
  puts \<open>_name\<close>, \<open>_rank\<close> and \<open>_size\<close> there.  The class defines the properties \<open>name\<close>
  (with a setter that takes strings only), \<open>rank\<close> and \<open>size\<close> (without setter), none
  with a deleter, and the methods below.  The names that every object inherits from
  \<open>object\<close> are left out.
\<close>

type_synonym dummy_comm = "(string \<times> attr) list"

definition dummy_methods :: "string list" where
  "dummy_methods =
     [''__init__'', ''_get_buffer'', ''_scatter_gather'', ''Get_name'', ''Get_rank'',
      ''Get_size'', ''Allgather'', ''allgather'', ''Allgatherv'', ''Allreduce'',
      ''allreduce'', ''Barrier'', ''barrier'', ''Bcast'', ''bcast'', ''Gather'', ''gather'',
      ''Gatherv'', ''Is_intra'', ''Is_inter'', ''Reduce'', ''reduce'', ''Scatter'',
      ''scatter'', ''Scatterv'', ''Sendrecv'', ''sendrecv'']"

definition dummy_properties :: "(string \<times> string) list" where
  "dummy_properties = [(''name'', ''_name''), (''rank'', ''_rank''), (''size'', ''_size'')]"

definition dummy_dir :: "dummy_comm \<Rightarrow> string list" where
  "dummy_dir self = map fst self @ map fst dummy_properties @ dummy_methods"

definition dummy_getattr :: "dummy_comm \<Rightarrow> string \<Rightarrow> attr outcome" where
  "dummy_getattr self name =
     (case map_of dummy_properties name of
        Some field \<Rightarrow>
          (case map_of self field of
             Some v \<Rightarrow> Returns v
           | None \<Rightarrow> Raises AttributeError)
      | None \<Rightarrow>
          (case map_of self name of
             Some v \<Rightarrow> Returns v
           | None \<Rightarrow>
               if name \<in> set dummy_methods then Returns (BoundMethod name)
               else Raises AttributeError))"

definition dummy_setattr :: "dummy_comm \<Rightarrow> string \<Rightarrow> attr \<Rightarrow> dummy_comm outcome" where
  "dummy_setattr self name v =
     (if name = ''name'' then
        (case v of
           Plain (PyStr s) \<Rightarrow> Returns (AList.update ''_name'' v self)
         | _ \<Rightarrow> Raises TypeError)
      else if name \<in> set (map fst dummy_properties) then Raises AttributeError
      else Returns (AList.update name v self))"

definition dummy_delattr :: "dummy_comm \<Rightarrow> string \<Rightarrow> dummy_comm outcome" where
  "dummy_delattr self name =
     (if name \<in> set (map fst dummy_properties) then Raises AttributeError
      else if name \<in> set (map fst self) then Returns (AList.delete name self)
      else Raises AttributeError)"

definition dummy_protocol :: "dummy_comm attribute_protocol" where
  "dummy_protocol =
     \<lparr>dir_of = dummy_dir, getattr_of = dummy_getattr,
      setattr_of = dummy_setattr, delattr_of = dummy_delattr\<rparr>"

text \<open>\<open>COMM_WORLD = Intracomm('dummyMPI_COMM_WORLD')\<close>, and a wrapper around it.\<close>

definition dummy_COMM_WORLD :: dummy_comm where
  "dummy_COMM_WORLD =
     [(''_name'', Plain (PyStr ''dummyMPI_COMM_WORLD'')),
      (''_rank'', Plain (PyInt 0)),
      (''_size'', Plain (PyInt 1))]"

definition example_wrapper :: wrapper where
  "example_wrapper =
     \<lparr>class_attrs = [''bcast'' \<mapsto> BoundMethod ''BufferComm.bcast'',
                      ''gather'' \<mapsto> BoundMethod ''BufferComm.gather'',
                      ''Get_rank'' \<mapsto> BoundMethod ''Comm.Get_rank''],
      instance_dict = Map.empty\<rparr>"

section \<open>The registry of wrappers: \<open>get_BufferComm_obj\<close>\<close>

text \<open>
  \<open>hex(n)\<close> for a non-negative integer: \<open>0x\<close> followed by the lower-case hexadecimal
  digits of \<open>n\<close>, most significant first.
\<close>

definition hexdigit :: "nat \<Rightarrow> char" where
  "hexdigit d = ''0123456789abcdef'' ! d"

fun hexdigits :: "nat \<Rightarrow> string" where
  "hexdigits n =
     (if n < 16 then [hexdigit n] else hexdigits (n div 16) @ [hexdigit (n mod 16)])"

declare hexdigits.simps [simp del]

definition hex :: "nat \<Rightarrow> string" where
  "hex n = ''0x'' @ hexdigits n"

text \<open>
  An object is known by its identity, \<open>id(obj)\<close>.  The live objects of the process are
  numbered in the order of their creation, and \<open>objects\<close> holds the class of each; a
  new object gets the next number.  The classes that matter here are the
  intra-communicator classes of mpi4py and of dummyMPI, their plain \<open>Comm\<close> classes,
  and the class \<open>BufferComm(comm.__class__, object)\<close> that one call of
  \<open>get_BufferComm_obj\<close> defines around \<open>comm\<close>.
\<close>

type_synonym ident = nat

datatype pyclass =
    MPI_Intracomm
  | MPI_Comm
  | Dummy_Intracomm
  | Dummy_Comm
  | BufferComm ident pyclass
  | OtherClass string

text \<open>
  \<open>isinstance(comm, (MPI.Intracomm, dummyMPI.Intracomm))\<close> on the class of \<open>comm\<close>: a
  \<open>BufferComm\<close> class inherits from the class of the communicator it wraps.
\<close>

fun is_Intracomm :: "pyclass \<Rightarrow> bool" where
  "is_Intracomm MPI_Intracomm = True"
| "is_Intracomm Dummy_Intracomm = True"
| "is_Intracomm (BufferComm c base) = is_Intracomm base"
| "is_Intracomm _ = False"

text \<open>
  The state of the module: the live objects, the object \<open>MPI.COMM_WORLD\<close>, and the
  dict \<open>buffer_comm_registry\<close> in insertion order (key \<open>hex(id(comm))\<close>, value the
  wrapper).
\<close>

record module_state =
  objects :: "pyclass list"
  COMM_WORLD :: ident
  buffer_comm_registry :: "(string \<times> ident) list"

definition isinstance_Intracomm :: "module_state \<Rightarrow> ident \<Rightarrow> bool" where
  "isinstance_Intracomm s c = (c < length (objects s) \<and> is_Intracomm (objects s ! c))"

text \<open>\<open>comm.__class__\<close>\<close>

definition class_of :: "module_state \<Rightarrow> ident \<Rightarrow> pyclass" where
  "class_of s c = (if c < length (objects s) then objects s ! c else OtherClass ''object'')"

text \<open>
  Lines 79 to 287 of \<open>get_BufferComm_obj\<close>, with \<open>comm\<close> settled: the wrapper stored
  under \<open>hex(id(comm))\<close> if there is one; \<open>comm\<close> itself if it is one of the stored
  wrappers (\<open>in\<close> compares by identity); otherwise a new \<open>BufferComm\<close> instance, stored
  under \<open>hex(id(comm))\<close>.
\<close>

definition wrap_or_lookup :: "module_state \<Rightarrow> ident \<Rightarrow> (error + ident) \<times> module_state" where
  "wrap_or_lookup s comm =
     (case map_of (buffer_comm_registry s) (hex comm) of
        Some buffer_comm \<Rightarrow> (Inr buffer_comm, s)
      | None \<Rightarrow>
          if comm \<in> set (map snd (buffer_comm_registry s)) then (Inr comm, s)
          else
            let buffer_comm = length (objects s) in
              (Inr buffer_comm,
               s\<lparr>objects := objects s @ [BufferComm comm (class_of s comm)],
                 buffer_comm_registry :=
                   buffer_comm_registry s @ [(hex comm, buffer_comm)]\<rparr>))"

text \<open>
  \<open>get_BufferComm_obj(comm=None)\<close>.  The argument is \<open>None\<close> or an object; the result
  is the value returned or the exception raised, together with the state after the
  call.
\<close>

definition get_BufferComm_obj ::
  "module_state \<Rightarrow> ident option \<Rightarrow> (error + ident) \<times> module_state" where
  "get_BufferComm_obj s comm =
     (case comm of
        None \<Rightarrow> wrap_or_lookup s (COMM_WORLD s)
      | Some c \<Rightarrow>
          if \<not> isinstance_Intracomm s c then (Inl TypeError, s)
          else wrap_or_lookup s c)"

text \<open>Any other code of the process creates an object.\<close>

definition new_object :: "module_state \<Rightarrow> pyclass \<Rightarrow> module_state" where
  "new_object s cls = s\<lparr>objects := objects s @ [cls]\<rparr>"

text \<open>
  The states the module can be in: line 26 leaves an empty registry, with
  \<open>MPI.COMM_WORLD\<close> an intra-communicator; from there on the registry changes only
  through calls of \<open>get_BufferComm_obj\<close> (lines 291 and 292 are the first two), while
  the rest of the process creates objects.  \<open>run\<close> gives the state after a sequence of
  such events.
\<close>

definition module_loaded :: "module_state \<Rightarrow> bool" where
  "module_loaded s = (buffer_comm_registry s = [] \<and> isinstance_Intracomm s (COMM_WORLD s))"

datatype event = Call "ident option" | Create pyclass

fun run :: "module_state \<Rightarrow> event list \<Rightarrow> module_state" where
  "run s [] = s"
| "run s (Call comm # events) = run (snd (get_BufferComm_obj s comm)) events"
| "run s (Create cls # events) = run (new_object s cls) events"

text \<open>
  The invariant of the registry: every stored wrapper is an intra-communicator
  instance whose own identity is not a key, every key is the identity of a live
  object, and no key occurs twice.
\<close>

definition registry_inv :: "module_state \<Rightarrow> bool" where
  "registry_inv s =
     (isinstance_Intracomm s (COMM_WORLD s)
      \<and> distinct (map fst (buffer_comm_registry s))
      \<and> (\<forall>(k, w) \<in> set (buffer_comm_registry s).
            isinstance_Intracomm s w
            \<and> hex w \<notin> set (map fst (buffer_comm_registry s))
            \<and> (\<exists>c < length (objects s). k = hex c)))"

text \<open>
  A process for the examples: dummyMPI's \<open>COMM_WORLD\<close> and \<open>COMM_SELF\<close> and an
  integer, the registry still empty; and lines 291 and 292 as events.
\<close>

definition example_state :: module_state where
  "example_state =
     \<lparr>objects = [Dummy_Intracomm, Dummy_Intracomm, OtherClass ''int''],
      COMM_WORLD = 0,
      buffer_comm_registry = []\<rparr>"

definition example_events :: "event list" where
  "example_events = [Call (Some 1), Call (Some 0)]"

section \<open>dummyMPI: the single-participant communicator\<close>

text \<open>
  \<open>Comm.__init__\<close> fixes \<open>_rank = 0\<close> and \<open>_size = 1\<close>.  The collective methods take
  \<open>*args, **kwargs\<close> that they never read, so the model leaves them out.
\<close>

definition dummy_rank :: nat where
  "dummy_rank = 0"

definition dummy_size :: nat where
  "dummy_size = 1"

text \<open>\<open>def Bcast(self, buf, *args, **kwargs): return(buf)\<close>\<close>

definition dummy_Bcast :: "pyobj \<Rightarrow> pyobj outcome" where
  "dummy_Bcast buf = Returns buf"

text \<open>\<open>def bcast(self, obj, *args, **kwargs): return(obj)\<close>\<close>

definition dummy_bcast :: "pyobj \<Rightarrow> pyobj outcome" where
  "dummy_bcast obj = Returns obj"

text \<open>\<open>def gather(self, sendobj, *args, **kwargs): return([sendobj])\<close>\<close>

definition dummy_gather :: "pyobj \<Rightarrow> pyobj outcome" where
  "dummy_gather sendobj = Returns (PyList [sendobj])"

text \<open>
  \<open>sendobj[0]\<close>: the first element of a list or tuple, the first character of a
  string, the first sub-array along the leading axis of an array, the value under the
  key \<open>0\<close> of a dict.  It raises \<open>IndexError\<close> on an empty sequence and on an array
  without a first sub-array, \<open>KeyError\<close> on a dict without the key, and \<open>TypeError\<close>
  on a value that cannot be subscripted.
\<close>

fun item0 :: "pyobj \<Rightarrow> pyobj outcome" where
  "item0 (PyList xs) = (case xs of [] \<Rightarrow> Raises IndexError | x # _ \<Rightarrow> Returns x)"
| "item0 (PyTuple xs) = (case xs of [] \<Rightarrow> Raises IndexError | x # _ \<Rightarrow> Returns x)"
| "item0 (PyStr s) = (case s of [] \<Rightarrow> Raises IndexError | c # _ \<Rightarrow> Returns (PyStr [c]))"
| "item0 (NDArray a) =
     (case shape a of
        [] \<Rightarrow> Raises IndexError
      | n # ns \<Rightarrow>
          if n = 0 then Raises IndexError
          else Returns (NDArray \<lparr>shape = ns, dtype = dtype a,
                                  data = take (prod_list ns) (data a)\<rparr>))"
| "item0 (PyDict kvs) =
     (case map_of kvs (PyInt 0) of None \<Rightarrow> Raises KeyError | Some v \<Rightarrow> Returns v)"
| "item0 _ = Raises TypeError"

text \<open>\<open>def scatter(self, sendobj, *args, **kwargs): return(sendobj[0])\<close>\<close>

definition dummy_scatter :: "pyobj \<Rightarrow> pyobj outcome" where
  "dummy_scatter sendobj = item0 sendobj"

section \<open>dummyMPI: the buffer collectives\<close>

text \<open>
  \<open>_scatter_gather\<close> copies a payload or writes into a buffer of the caller, so arrays
  are shared, mutable objects here: the store holds the arrays of the process, an array
  is known by its position in the store, and a new array is put at the end.  The other
  values are numbers, strings and \<open>None\<close>, and lists and tuples of values; a list is
  taken as the value it holds (the collectives get lists such as \<open>[buf, count]\<close> that
  are built for the call).
\<close>

type_synonym addr = nat

type_synonym store = "ndarray list"

datatype pyval =
    VNone
  | VInt int
  | VStr string
  | VArray addr
  | VList "pyval list"
  | VTuple "pyval list"

text \<open>The arrays that a value refers to, and the value with the arrays written out.\<close>

fun refs :: "pyval \<Rightarrow> addr set" where
  "refs (VArray a) = {a}"
| "refs (VList xs) = (\<Union>x \<in> set xs. refs x)"
| "refs (VTuple xs) = (\<Union>x \<in> set xs. refs x)"
| "refs _ = {}"

fun contents :: "store \<Rightarrow> pyval \<Rightarrow> pyobj" where
  "contents st VNone = PyNone"
| "contents st (VInt i) = PyInt i"
| "contents st (VStr s) = PyStr s"
| "contents st (VArray a) = NDArray (st ! a)"
| "contents st (VList xs) = PyList (map (contents st) xs)"
| "contents st (VTuple xs) = PyTuple (map (contents st) xs)"

text \<open>
  \<open>def _get_buffer(self, buff)\<close>: the first element of a list or tuple (\<open>IndexError\<close>
  when it is empty), otherwise \<open>buff\<close> itself.
\<close>

fun get_buffer :: "pyval \<Rightarrow> pyval outcome" where
  "get_buffer (VList xs) = (case xs of [] \<Rightarrow> Raises IndexError | x # _ \<Rightarrow> Returns x)"
| "get_buffer (VTuple xs) = (case xs of [] \<Rightarrow> Raises IndexError | x # _ \<Rightarrow> Returns x)"
| "get_buffer buff = Returns buff"

text \<open>
  \<open>copy.deepcopy\<close>: an array is copied to a new array, a list or tuple element by
  element, and the memo of the arrays copied so far makes two references to one array
  become two references to one copy.  Numbers, strings and \<open>None\<close> are not copied.
\<close>

type_synonym memo = "(addr \<times> addr) list"

fun deepcopy :: "pyval \<Rightarrow> store \<times> memo \<Rightarrow> pyval \<times> store \<times> memo"
  and deepcopy_list :: "pyval list \<Rightarrow> store \<times> memo \<Rightarrow> pyval list \<times> store \<times> memo" where
  "deepcopy VNone sm = (VNone, sm)"
| "deepcopy (VInt i) sm = (VInt i, sm)"
| "deepcopy (VStr s) sm = (VStr s, sm)"
| "deepcopy (VArray a) sm =
     (case map_of (snd sm) a of
        Some a' \<Rightarrow> (VArray a', sm)
      | None \<Rightarrow> (VArray (length (fst sm)), fst sm @ [fst sm ! a], (a, length (fst sm)) # snd sm))"
| "deepcopy (VList xs) sm = (case deepcopy_list xs sm of (ys, sm') \<Rightarrow> (VList ys, sm'))"
| "deepcopy (VTuple xs) sm = (case deepcopy_list xs sm of (ys, sm') \<Rightarrow> (VTuple ys, sm'))"
| "deepcopy_list [] sm = ([], sm)"
| "deepcopy_list (x # xs) sm =
     (case deepcopy x sm of
        (y, sm1) \<Rightarrow> (case deepcopy_list xs sm1 of (ys, sm2) \<Rightarrow> (y # ys, sm2)))"

text \<open>
  The memo of a copy in progress: it maps arrays that were there when the copy began
  (the first \<open>n\<close> of the store) to their copies, which came after.
\<close>

definition memo_ok :: "nat \<Rightarrow> store \<Rightarrow> memo \<Rightarrow> bool" where
  "memo_ok n st m =
     (n \<le> length st
      \<and> (\<forall>(a, a') \<in> set m. a < n \<and> n \<le> a' \<and> a' < length st \<and> st ! a' = st ! a))"

text \<open>
  \<open>recvbuf[:] = sendbuf\<close> on an array needs the value as an array first
  (\<open>np.asarray\<close>): a number is an array without dimensions (of the default integer
  type, \<open>int64\<close>), an array is itself, a list or tuple of values of one shape is the
  array of them, with the element type that holds them all; an empty list is an empty
  array of the type \<open>float64\<close>.
\<close>

definition stack :: "runtime \<Rightarrow> ndarray option list \<Rightarrow> ndarray option" where
  "stack rt elems =
     (case those elems of
        None \<Rightarrow> None
      | Some [] \<Rightarrow> Some \<lparr>shape = [0], dtype = ''float64'', data = []\<rparr>
      | Some (a # as) \<Rightarrow>
          if \<forall>b \<in> set as. shape b = shape a then
            let d = foldl (promote rt) (dtype a) (map dtype as) in
              Some \<lparr>shape = length (a # as) # shape a, dtype = d,
                    data = concat (map (\<lambda>b. map (np_cast rt (dtype b) d) (data b)) (a # as))\<rparr>
          else None)"

fun to_array :: "runtime \<Rightarrow> store \<Rightarrow> pyval \<Rightarrow> ndarray option" where
  "to_array rt st (VInt i) = Some \<lparr>shape = [], dtype = ''int64'', data = [i]\<rparr>"
| "to_array rt st (VArray a) = Some (st ! a)"
| "to_array rt st (VList xs) = stack rt (map (to_array rt st) xs)"
| "to_array rt st (VTuple xs) = stack rt (map (to_array rt st) xs)"
| "to_array rt st _ = None"

text \<open>
  Broadcasting the elements of an array of shape \<open>src\<close> to the shape \<open>dst\<close> of the same
  length: along an axis the extents agree, or the source has extent 1 and is repeated.
\<close>

fun broadcast_data :: "nat list \<Rightarrow> nat list \<Rightarrow> int list \<Rightarrow> int list option" where
  "broadcast_data [] [] xs = Some xs"
| "broadcast_data (m # ms) (n # ns) xs =
     (if m = n then
        map_option concat
          (those (map (\<lambda>i. broadcast_data ms ns (take (prod_list ms) (drop (i * prod_list ms) xs)))
                      [0..<n]))
      else if m = 1 then map_option (\<lambda>ys. concat (replicate n ys)) (broadcast_data ms ns xs)
      else None)"
| "broadcast_data _ _ xs = None"

text \<open>
  The shapes are brought to one length first: leading axes of extent 1 that the source
  has too many are dropped, axes of extent 1 that it lacks are put in front.
\<close>

fun align_shape :: "nat list \<Rightarrow> nat \<Rightarrow> nat list" where
  "align_shape src n =
     (if length src \<le> n then replicate (n - length src) 1 @ src
      else (case src of m # ms \<Rightarrow> if m = 1 then align_shape ms n else src | [] \<Rightarrow> src))"

declare align_shape.simps [simp del]

definition broadcast_to :: "ndarray \<Rightarrow> nat list \<Rightarrow> int list option" where
  "broadcast_to src dst = broadcast_data (align_shape (shape src) (length dst)) dst (data src)"

text \<open>What iterating over a value yields, for the assignment to a slice of a list.\<close>

fun iterate :: "store \<Rightarrow> pyval \<Rightarrow> pyval list option" where
  "iterate st (VList xs) = Some xs"
| "iterate st (VTuple xs) = Some xs"
| "iterate st (VStr s) = Some (map (\<lambda>c. VStr [c]) s)"
| "iterate st (VArray a) =
     (case shape (st ! a) of [n] \<Rightarrow> Some (map VInt (data (st ! a))) | _ \<Rightarrow> None)"
| "iterate st _ = None"

text \<open>
  \<open>recvbuf[:] = sendbuf\<close>, giving the receive buffer after the assignment and the new
  store.  A slice needs an axis: on an array without dimensions the assignment raises
  \<open>IndexError\<close>.  Any other array takes the broadcast elements in place, each
  converted to the element type of the array (\<open>ValueError\<close> when the shapes do not
  fit).  A list takes the elements that iterating over \<open>sendbuf\<close> yields; only lists,
  tuples, strings and one-dimensional arrays are iterated over here.  Nothing else
  that a value can be supports the assignment.
\<close>

fun assign_slice :: "runtime \<Rightarrow> store \<Rightarrow> pyval \<Rightarrow> pyval \<Rightarrow> (pyval \<times> store) outcome" where
  "assign_slice rt st (VArray r) sendbuf =
     (if shape (st ! r) = [] then Raises IndexError
      else
        (case to_array rt st sendbuf of
           None \<Rightarrow> Raises ValueError
         | Some src \<Rightarrow>
             (case broadcast_to src (shape (st ! r)) of
                None \<Rightarrow> Raises ValueError
              | Some xs \<Rightarrow>
                  Returns (VArray r,
                           st[r := (st ! r)\<lparr>data :=
                                     map (np_cast rt (dtype src) (dtype (st ! r))) xs\<rparr>]))))"
| "assign_slice rt st (VList ys) sendbuf =
     (case iterate st sendbuf of
        None \<Rightarrow> Raises TypeError
      | Some xs \<Rightarrow> Returns (VList xs, st))"
| "assign_slice rt st _ sendbuf = Raises TypeError"

text \<open>\<open>def _scatter_gather(self, sendbuf, recvbuf=None)\<close>\<close>

definition scatter_gather ::
    "runtime \<Rightarrow> store \<Rightarrow> pyval \<Rightarrow> pyval \<Rightarrow> (pyval \<times> store) outcome" where
  "scatter_gather rt st sendbuf recvbuf =
     (case get_buffer sendbuf of
        Raises e \<Rightarrow> Raises e
      | Stalls \<Rightarrow> Stalls
      | Returns sendbuf' \<Rightarrow>
          (case get_buffer recvbuf of
             Raises e \<Rightarrow> Raises e
           | Stalls \<Rightarrow> Stalls
           | Returns recvbuf' \<Rightarrow>
               if recvbuf' = VNone then
                 (case deepcopy sendbuf' (st, []) of (v, st', m) \<Rightarrow> Returns (v, st'))
               else assign_slice rt st recvbuf' sendbuf'))"

text \<open>The collectives that go through it (lines 149 to 181).\<close>

definition dummy_Gather ::
    "runtime \<Rightarrow> store \<Rightarrow> pyval \<Rightarrow> pyval \<Rightarrow> (pyval \<times> store) outcome" where
  "dummy_Gather rt st sendbuf recvbuf = scatter_gather rt st sendbuf recvbuf"

definition dummy_Gatherv ::
    "runtime \<Rightarrow> store \<Rightarrow> pyval \<Rightarrow> pyval \<Rightarrow> (pyval \<times> store) outcome" where
  "dummy_Gatherv rt st sendbuf recvbuf = scatter_gather rt st sendbuf recvbuf"

definition dummy_Reduce ::
    "runtime \<Rightarrow> store \<Rightarrow> pyval \<Rightarrow> pyval \<Rightarrow> (pyval \<times> store) outcome" where
  "dummy_Reduce rt st sendbuf recvbuf = scatter_gather rt st sendbuf recvbuf"

definition dummy_Scatter ::
    "runtime \<Rightarrow> store \<Rightarrow> pyval \<Rightarrow> pyval \<Rightarrow> (pyval \<times> store) outcome" where
  "dummy_Scatter rt st sendbuf recvbuf = scatter_gather rt st sendbuf recvbuf"

definition dummy_Scatterv ::
    "runtime \<Rightarrow> store \<Rightarrow> pyval \<Rightarrow> pyval \<Rightarrow> (pyval \<times> store) outcome" where
  "dummy_Scatterv rt st sendbuf recvbuf = scatter_gather rt st sendbuf recvbuf"

text \<open>\<open>np.isscalar\<close>: numbers and strings are scalars; \<open>None\<close>, arrays, lists and tuples are not.\<close>

fun np_isscalar :: "pyval \<Rightarrow> bool" where
  "np_isscalar (VInt i) = True"
| "np_isscalar (VStr s) = True"
| "np_isscalar _ = False"

definition dummy_reduce :: "runtime \<Rightarrow> store \<Rightarrow> pyval \<Rightarrow> (pyval \<times> store) outcome" where
  "dummy_reduce rt st sendobj =
     (if np_isscalar sendobj then Returns (sendobj, st)
      else scatter_gather rt st sendobj VNone)"

text \<open>
  A store for the examples: a send buffer and a receive buffer of one shape and one
  element type, an array of one element, and a receive buffer of three elements of a
  narrower type.
\<close>

definition example_store :: store where
  "example_store =
     [\<lparr>shape = [2, 2], dtype = ''int64'', data = [1, 2, 3, 4]\<rparr>,
      \<lparr>shape = [2, 2], dtype = ''int64'', data = [0, 0, 0, 0]\<rparr>,
      \<lparr>shape = [1], dtype = ''int64'', data = [300]\<rparr>,
      \<lparr>shape = [3], dtype = ''int8'', data = [0, 0, 0]\<rparr>]"
section \<open>Properties\<close>

subsection \<open>The transport with a single rank\<close>

text \<open>
  In a group of one rank, and within the ceiling, the generic primitives of the
  transport do what \<open>bcast\<close> and \<open>gather\<close> of dummyMPI do.
\<close>

lemma transport_single_rank:
  assumes "pickle_size rt obj \<le> transport_ceiling"
  shows "comm_bcast rt [obj] 0 0 = dummy_bcast obj"
    and "comm_gather rt [obj] 0 0 = dummy_gather obj"
  using assms by (simp_all add: comm_bcast_def comm_gather_def dummy_bcast_def dummy_gather_def)

subsection \<open>Broadcast\<close>

lemma as_dim_int [simp]: "as_dim (PyInt (int n)) = Some n"
  by simp

lemma those_map_as_dim [simp]:
  "those (map (as_dim \<circ> (\<lambda>n. PyInt (int n))) shp) = Some shp"
  by (induction shp) simp_all

lemma as_shape_shape_tuple [simp]: "as_shape (shape_tuple shp) = Some shp"
  by (simp add: shape_tuple_def)

lemma comm_bcast_message:
  assumes "root < length objs"
    and "pickle_size rt (bcast_message (objs ! root)) \<le> transport_ceiling"
  shows "comm_bcast rt (bcast_arguments objs root) root rank
         = Returns (bcast_message (objs ! root))"
  using assms by (simp add: comm_bcast_def bcast_arguments_def)

lemma comm_bcast_oversized:
  assumes "root < length objs"
    and "transport_ceiling < pickle_size rt (bcast_message (objs ! root))"
  shows "comm_bcast rt (bcast_arguments objs root) root rank
         = (if rank = root then Raises OverflowError else Stalls)"
  using assms by (simp add: comm_bcast_def bcast_arguments_def)

lemma bcast_message_generic:
  "\<not> is_ndarray obj \<Longrightarrow> bcast_message obj = PyList [PyStr (class_name obj), obj]"
  by (cases obj) simp_all

lemma class_name_not_descriptor: "class_name obj \<noteq> ''NumPy ndarray''"
  by (cases obj) simp_all

lemma np_empty_star_descriptor:
  "np_empty_star rt (PyList [shape_tuple shp, PyDtype d]) = Returns (np_empty rt shp d)"
  by simp

lemma comm_Bcast_np_empty:
  "wf_ndarray a \<Longrightarrow> comm_Bcast a (np_empty rt (shape a) (dtype a)) = Returns a"
  by (simp add: comm_Bcast_def np_empty_def wf_ndarray_def)

lemma comm_Bcast_self: "comm_Bcast a a = Returns a"
  by (simp add: comm_Bcast_def)

lemma bcast_root_ndarray:
  assumes "root < length objs" and "objs ! root = NDArray a"
    and "pickle_size rt (bcast_message (objs ! root)) \<le> transport_ceiling"
  shows "bcast rt objs root root = Returns (NDArray a)"
  using assms comm_bcast_message [OF assms(1) assms(3), of root]
  by (simp add: bcast_def comm_Bcast_self)

lemma bcast_root_generic:
  assumes "root < length objs" and "\<not> is_ndarray (objs ! root)"
    and "pickle_size rt (bcast_message (objs ! root)) \<le> transport_ceiling"
  shows "bcast rt objs root root = Returns (objs ! root)"
  using assms(2) comm_bcast_message [OF assms(1) assms(3), of root]
  by (cases "objs ! root") (simp_all add: bcast_def)

lemma bcast_receiver_ndarray:
  assumes "root < length objs" and "rank \<noteq> root" and "objs ! root = NDArray a"
    and "wf_ndarray a"
    and "pickle_size rt (bcast_message (objs ! root)) \<le> transport_ceiling"
  shows "bcast rt objs root rank = Returns (NDArray a)"
  using assms(2,3,4) comm_bcast_message [OF assms(1) assms(5), of rank]
  by (simp add: bcast_def comm_Bcast_np_empty)

lemma bcast_receiver_generic:
  assumes "root < length objs" and "rank \<noteq> root" and "\<not> is_ndarray (objs ! root)"
    and "pickle_size rt (bcast_message (objs ! root)) \<le> transport_ceiling"
  shows "bcast rt objs root rank = Returns (objs ! root)"
  using assms(2,3) comm_bcast_message [OF assms(1) assms(4), of rank]
  by (simp add: bcast_def bcast_message_generic class_name_not_descriptor)

text \<open>
  C1, as amended.  For every payload whose message to the generic broadcast (the
  descriptor of an array, or the pair of type name and payload) pickles to at most
  \<open>2^31 - 1\<close> bytes, and every valid root, \<open>bcast\<close> returns the root's payload on every
  rank.  Every rank receives the root's message from the generic broadcast.  For an
  array the message is \<open>['NumPy ndarray', [shape, dtype]]\<close>; the buffer a receiver
  allocates from it has that shape and dtype, and the typed broadcast into it yields
  the root's array.  For any other payload the message is \<open>[type name, payload]\<close>.
\<close>

theorem bcast_returns_payload:
  assumes root: "root < length objs"
    and fits: "pickle_size rt (bcast_message (objs ! root)) \<le> transport_ceiling"
    and wf: "\<forall>a. objs ! root = NDArray a \<longrightarrow> wf_ndarray a"
  shows "bcast rt objs root rank = Returns (objs ! root)
         \<and> comm_bcast rt (bcast_arguments objs root) root rank
             = Returns (bcast_message (objs ! root))
         \<and> (\<forall>a. objs ! root = NDArray a \<longrightarrow>
               bcast_message (objs ! root)
                 = PyList [PyStr ''NumPy ndarray'',
                           PyList [shape_tuple (shape a), PyDtype (dtype a)]]
               \<and> np_empty_star rt (PyList [shape_tuple (shape a), PyDtype (dtype a)])
                   = Returns (np_empty rt (shape a) (dtype a))
               \<and> shape (np_empty rt (shape a) (dtype a)) = shape a
               \<and> dtype (np_empty rt (shape a) (dtype a)) = dtype a
               \<and> comm_Bcast a (np_empty rt (shape a) (dtype a)) = Returns a)
         \<and> (\<not> is_ndarray (objs ! root) \<longrightarrow>
               bcast_message (objs ! root)
                 = PyList [PyStr (class_name (objs ! root)), objs ! root])"
proof -
  have result: "bcast rt objs root rank = Returns (objs ! root)"
  proof (cases "is_ndarray (objs ! root)")
    case True
    then obtain a where a: "objs ! root = NDArray a" by (cases "objs ! root") simp_all
    with wf have "wf_ndarray a" by simp
    with a root fits show ?thesis
      by (cases "rank = root") (simp_all add: bcast_root_ndarray bcast_receiver_ndarray)
  next
    case False
    with root fits show ?thesis
      by (cases "rank = root") (simp_all add: bcast_root_generic bcast_receiver_generic)
  qed
  have message: "comm_bcast rt (bcast_arguments objs root) root rank
                 = Returns (bcast_message (objs ! root))"
    using root fits by (rule comm_bcast_message)
  have array: "\<forall>a. objs ! root = NDArray a \<longrightarrow>
               bcast_message (objs ! root)
                 = PyList [PyStr ''NumPy ndarray'',
                           PyList [shape_tuple (shape a), PyDtype (dtype a)]]
               \<and> np_empty_star rt (PyList [shape_tuple (shape a), PyDtype (dtype a)])
                   = Returns (np_empty rt (shape a) (dtype a))
               \<and> shape (np_empty rt (shape a) (dtype a)) = shape a
               \<and> dtype (np_empty rt (shape a) (dtype a)) = dtype a
               \<and> comm_Bcast a (np_empty rt (shape a) (dtype a)) = Returns a"
    using wf by (simp add: comm_Bcast_np_empty) (simp add: np_empty_def)
  have generic: "\<not> is_ndarray (objs ! root) \<longrightarrow>
               bcast_message (objs ! root)
                 = PyList [PyStr (class_name (objs ! root)), objs ! root]"
    by (simp add: bcast_message_generic)
  from result message array generic show ?thesis by blast
qed

text \<open>
  The round trips of the specification: a \<open>2 \<times> 3\<close> array broadcast from rank 0 in a
  group of three reaches rank 2 with its shape, dtype and contents, and so does a
  nested list broadcast from rank 1.
\<close>

theorem bcast_returns_payload_witness:
  "(0::nat) < length [NDArray \<lparr>shape = [2, 3], dtype = ''int64'', data = [1, 2, 3, 4, 5, 6]\<rparr>,
                      PyNone, PyNone]
   \<and> wf_ndarray \<lparr>shape = [2, 3], dtype = ''int64'', data = [1, 2, 3, 4, 5, 6]\<rparr>
   \<and> bcast example_runtime
        [NDArray \<lparr>shape = [2, 3], dtype = ''int64'', data = [1, 2, 3, 4, 5, 6]\<rparr>,
         PyNone, PyNone] 0 2
      = Returns (NDArray \<lparr>shape = [2, 3], dtype = ''int64'', data = [1, 2, 3, 4, 5, 6]\<rparr>)
   \<and> \<not> is_ndarray (PyList [PyInt 1, PyList [PyStr ''a'']])
   \<and> bcast example_runtime [PyNone, PyList [PyInt 1, PyList [PyStr ''a'']], PyNone] 1 2
      = Returns (PyList [PyInt 1, PyList [PyStr ''a'']])"
proof -
  let ?a = "\<lparr>shape = [2, 3], dtype = ''int64'', data = [1, 2, 3, 4, 5, 6 :: int]\<rparr>"
  let ?objs = "[NDArray ?a, PyNone, PyNone]"
  have root: "(0::nat) < length ?objs" by simp
  have fits: "pickle_size example_runtime (bcast_message (?objs ! 0)) \<le> transport_ceiling"
    by (simp add: example_runtime_def transport_ceiling_def)
  have wfa: "wf_ndarray ?a" by (simp add: wf_ndarray_def)
  then have wf: "\<forall>a. ?objs ! 0 = NDArray a \<longrightarrow> wf_ndarray a" by simp
  from bcast_returns_payload [OF root fits wf, of 2]
  have "bcast example_runtime ?objs 0 2 = Returns (?objs ! 0)" by (rule conjunct1)
  then have array: "bcast example_runtime ?objs 0 2 = Returns (NDArray ?a)" by simp
  let ?l = "PyList [PyInt 1, PyList [PyStr ''a'']]"
  let ?objs' = "[PyNone, ?l, PyNone]"
  have root': "(1::nat) < length ?objs'" by simp
  have fits': "pickle_size example_runtime (bcast_message (?objs' ! 1)) \<le> transport_ceiling"
    by (simp add: example_runtime_def transport_ceiling_def)
  have wf': "\<forall>a. ?objs' ! 1 = NDArray a \<longrightarrow> wf_ndarray a" by simp
  from bcast_returns_payload [OF root' fits' wf', of 2]
  have "bcast example_runtime ?objs' 1 2 = Returns (?objs' ! 1)" by (rule conjunct1)
  then have generic: "bcast example_runtime ?objs' 1 2 = Returns ?l" by simp
  from root wfa array generic show ?thesis by simp
qed

text \<open>
  The claim as it was stated fails for a payload whose message exceeds the ceiling: the
  root raises instead of returning the payload.
\<close>

theorem bcast_oversized_counterexample:
  "(0::nat) < length [PyStr ''abc'', PyNone]
   \<and> bcast oversized_runtime [PyStr ''abc'', PyNone] 0 0
       = Raises (InputError_bytes (2 ^ 31 + 49) (2 ^ 31 - 1))
   \<and> bcast oversized_runtime [PyStr ''abc'', PyNone] 0 0 \<noteq> Returns (PyStr ''abc'')"
  by (simp add: bcast_def comm_bcast_def bcast_arguments_def oversized_runtime_def
      transport_ceiling_def)

text \<open>
  When the payload of the root is no array and the pickle of its message
  \<open>[type name, payload]\<close> exceeds the ceiling of the transport, \<open>bcast\<close> raises on the
  root the \<open>InputError\<close> that carries \<open>obj.__sizeof__()\<close> and \<open>2^31 - 1\<close>; every other
  rank raises nothing (it waits in the transport).
\<close>

lemma bcast_oversized_root:
  assumes root: "root < length objs"
    and generic: "\<not> is_ndarray (objs ! root)"
    and over: "transport_ceiling
               < pickle_size rt (PyList [PyStr (class_name (objs ! root)), objs ! root])"
  shows "bcast rt objs root root
           = Raises (InputError_bytes (sizeof rt (objs ! root)) (2 ^ 31 - 1))
         \<and> (\<forall>rank. rank \<noteq> root \<longrightarrow> bcast rt objs root rank = Stalls)
         \<and> (\<forall>rank e. rank \<noteq> root \<longrightarrow> bcast rt objs root rank \<noteq> Raises e)"
proof -
  from generic over
  have over': "transport_ceiling < pickle_size rt (bcast_message (objs ! root))"
    by (simp add: bcast_message_generic)
  note t = comm_bcast_oversized [OF root over']
  have a: "bcast rt objs root root
           = Raises (InputError_bytes (sizeof rt (objs ! root)) (2 ^ 31 - 1))"
    using generic t [of root] by (cases "objs ! root") (simp_all add: bcast_def)
  have b: "rank \<noteq> root \<Longrightarrow> bcast rt objs root rank = Stalls" for rank
    using t [of rank] by (simp add: bcast_def)
  from a b show ?thesis by simp
qed

lemma length_long_string: "length long_string = 2 ^ 31"
  by (simp only: long_string_def length_replicate)

text \<open>
  C5.  The size that the error of the root carries is \<open>obj.__sizeof__()\<close>, the size of
  the payload object alone, not the size of what was to be sent.  The root of a group
  of two ranks broadcasts a list that holds one string of \<open>2^31\<close> characters: the pickle
  of the message exceeds the ceiling, the root raises the error, and the size in it is
  48 bytes, the size of a list of one element.  So the message of the error reads
  \<open>48 > 2147483647\<close>.  The other rank raises nothing.
\<close>

theorem bcast_oversized_reports_sizeof:
  "transport_ceiling
     < pickle_size cpython_runtime (bcast_message (PyList [PyStr long_string]))
   \<and> bcast cpython_runtime [PyList [PyStr long_string], PyNone] 0 0
       = Raises (InputError_bytes 48 (2 ^ 31 - 1))
   \<and> bcast cpython_runtime [PyList [PyStr long_string], PyNone] 0 1 = Stalls"
proof -
  let ?objs = "[PyList [PyStr long_string], PyNone]"
  have root: "(0::nat) < length ?objs" by simp
  have generic: "\<not> is_ndarray (?objs ! 0)" by simp
  have over: "transport_ceiling
               < pickle_size cpython_runtime (PyList [PyStr (class_name (?objs ! 0)), ?objs ! 0])"
    by (simp add: cpython_runtime_def transport_ceiling_def length_long_string)
  note t = bcast_oversized_root [OF root generic over]
  from t have "bcast cpython_runtime ?objs 0 0
           = Raises (InputError_bytes (sizeof cpython_runtime (?objs ! 0)) (2 ^ 31 - 1))"
    by (rule conjunct1)
  then have a: "bcast cpython_runtime ?objs 0 0 = Raises (InputError_bytes 48 (2 ^ 31 - 1))"
    by (simp add: cpython_runtime_def)
  from t have b: "bcast cpython_runtime ?objs 0 1 = Stalls" by simp
  from over a b show ?thesis by simp
qed
subsection \<open>Gather of arrays\<close>

lemma those_map_as_shape:
  "those (map as_shape (map gather_argument (map NDArray arrs))) = Some (map shape arrs)"
  by (induction arrs) simp_all

lemma prod_list_le:
  fixes xs ys :: "nat list"
  shows "list_all2 (\<le>) xs ys \<Longrightarrow> prod_list xs \<le> prod_list ys"
  by (induction rule: list_all2_induct) (simp_all add: mult_le_mono)

lemma list_all2_le_trans:
  fixes xs :: "nat list"
  assumes "list_all2 (\<le>) xs ys" and "list_all2 (\<le>) ys zs"
  shows "list_all2 (\<le>) xs zs"
proof (rule list_all2_trans [OF _ assms])
  fix a b c :: nat
  assume "a \<le> b" "b \<le> c"
  then show "a \<le> c" by simp
qed

lemma map2_max_ge:
  fixes xs ys :: "nat list"
  assumes "length xs = length ys"
  shows "list_all2 (\<le>) xs (map2 max xs ys)" and "list_all2 (\<le>) ys (map2 max xs ys)"
  using assms by (induction xs ys rule: list_induct2) simp_all

lemma foldl_map2_max:
  fixes acc :: "nat list"
  assumes "\<forall>t \<in> set ss. length t = length acc"
  shows "length (foldl (map2 max) acc ss) = length acc
         \<and> list_all2 (\<le>) acc (foldl (map2 max) acc ss)
         \<and> (\<forall>t \<in> set ss. list_all2 (\<le>) t (foldl (map2 max) acc ss))"
  using assms
proof (induction ss arbitrary: acc)
  case Nil
  then show ?case by (simp add: list_all2_refl)
next
  case (Cons t ss)
  let ?acc' = "map2 max acc t"
  let ?m = "foldl (map2 max) ?acc' ss"
  from Cons.prems have lt: "length acc = length t" by simp
  then have la: "length ?acc' = length acc" by simp
  with Cons.prems have "\<forall>u \<in> set ss. length u = length ?acc'" by simp
  from Cons.IH [OF this]
  have len: "length ?m = length ?acc'" and up: "list_all2 (\<le>) ?acc' ?m"
    and rest: "\<forall>u \<in> set ss. list_all2 (\<le>) u ?m"
    by simp_all
  have "list_all2 (\<le>) acc ?acc'" and "list_all2 (\<le>) t ?acc'"
    using map2_max_ge [OF lt] by simp_all
  with up have "list_all2 (\<le>) acc ?m" and "list_all2 (\<le>) t ?m"
    by (blast intro: list_all2_le_trans)+
  with len la rest show ?case by simp
qed

text \<open>The maximum along the ranks of shapes that agree in length.\<close>

lemma np_max_axis0_shapes:
  assumes ne: "arrs \<noteq> []"
    and same: "\<forall>a \<in> set arrs. length (shape a) = k"
  shows "\<exists>m. np_max_axis0 (map gather_argument (map NDArray arrs)) = Returns m
             \<and> length m = k
             \<and> m = foldl (map2 max) (shape (hd arrs)) (map shape (tl arrs))
             \<and> (\<forall>a \<in> set arrs. list_all2 (\<le>) (shape a) m)
             \<and> (\<forall>a \<in> set arrs. prod_list (shape a) \<le> prod_list m)"
proof -
  from ne obtain a as where arrs: "arrs = a # as" by (cases arrs) simp_all
  let ?m = "foldl (map2 max) (shape a) (map shape as)"
  from same arrs have lens: "\<forall>t \<in> set (map shape as). length t = length (shape a)"
    by simp
  from foldl_map2_max [OF lens]
  have len: "length ?m = length (shape a)" and up: "list_all2 (\<le>) (shape a) ?m"
    and rest: "\<forall>t \<in> set (map shape as). list_all2 (\<le>) t ?m"
    by simp_all
  have "np_max_axis0 (map gather_argument (map NDArray arrs)) = Returns ?m"
    unfolding np_max_axis0_def those_map_as_shape using arrs lens by simp
  moreover have "length ?m = k" using len same arrs by simp
  moreover have all: "\<forall>b \<in> set arrs. list_all2 (\<le>) (shape b) ?m"
    using up rest arrs by auto
  moreover from all have "\<forall>b \<in> set arrs. prod_list (shape b) \<le> prod_list ?m"
    by (blast intro: prod_list_le)
  ultimately show ?thesis using arrs by simp
qed

text \<open>
  When along every axis some shape has a positive extent, the maximum has no extent of
  zero.
\<close>

lemma prod_list_pos_axes:
  assumes len: "length m = k"
    and up: "\<forall>a \<in> set arrs. list_all2 (\<le>) (shape a) m"
    and axes: "\<forall>i < k. \<exists>a \<in> set arrs. 0 < shape a ! i"
  shows "0 < prod_list m"
proof -
  have "\<forall>x \<in> set m. 0 < x"
  proof
    fix x assume "x \<in> set m"
    then obtain i where i: "i < length m" and x: "x = m ! i" by (auto simp: in_set_conv_nth)
    from i len axes obtain a where a: "a \<in> set arrs" and p: "0 < shape a ! i" by blast
    from a up have "list_all2 (\<le>) (shape a) m" by blast
    with i have "shape a ! i \<le> m ! i" by (simp add: list_all2_conv_all_nth)
    with p x show "0 < x" by simp
  qed
  then have "0 \<notin> set m" by auto
  then have "prod_list m \<noteq> 0" by (simp add: prod_list_zero_iff)
  then show ?thesis by simp
qed

lemma gather_sendbufs_arrays:
  "gather_sendbufs rt (map NDArray arrs) = Some (map (\<lambda>a. ravel (substitute_dummy rt a)) arrs)"
  unfolding gather_sendbufs_def by (induction arrs) simp_all

lemma concat_block:
  "\<forall>b \<in> set bs. length b = n \<Longrightarrow> r < length bs \<Longrightarrow> take n (drop (r * n) (concat bs)) = bs ! r"
proof (induction bs arbitrary: r)
  case Nil
  then show ?case by simp
next
  case (Cons b bs)
  show ?case
  proof (cases r)
    case 0
    with Cons.prems show ?thesis by simp
  next
    case (Suc r')
    with Cons.prems have "take n (drop (r' * n) (concat bs)) = bs ! r'" 
      by (intro Cons.IH) simp_all
    with Suc Cons.prems show ?thesis by simp
  qed
qed

lemma those_map_eq:
  "\<forall>x \<in> set xs. f x = Some (g x) \<Longrightarrow> those (map f xs) = Some (map g xs)"
  by (induction xs) simp_all

lemma receive_block_fits:
  assumes "dtype sendbuf = d" and "length (data sendbuf) \<le> length block"
  shows "receive_block rt d block sendbuf
         = Some (data sendbuf @ drop (length (data sendbuf)) block)"
  using assms by (simp add: receive_block_def fill_block_def)

lemma length_block_of_buffer:
  assumes "r < n" and "length xs = n * m"
  shows "length (take m (drop (r * m) xs)) = m"
proof -
  from assms(1) have "Suc r \<le> n" by simp
  then have "Suc r * m \<le> n * m" by (rule mult_le_mono1)
  then have "m \<le> n * m - r * m" by simp
  with assms(2) show ?thesis by simp
qed

text \<open>The buffer of the root, for arrays of one positive number of dimensions.\<close>

lemma gather_buff_arrays:
  assumes ne: "arrs \<noteq> []"
    and same: "\<forall>a \<in> set arrs. length (shape a) = k"
    and pos: "0 < k"
  shows "\<exists>m. gather_buff rt n (map gather_argument (map NDArray arrs)) d
               = Returns (np_empty rt [n, prod_list m] d)
             \<and> length m = k
             \<and> m = foldl (map2 max) (shape (hd arrs)) (map shape (tl arrs))
             \<and> (\<forall>a \<in> set arrs. list_all2 (\<le>) (shape a) m)
             \<and> (\<forall>a \<in> set arrs. prod_list (shape a) \<le> prod_list m)"
proof -
  from np_max_axis0_shapes [OF ne same] obtain m
    where m: "np_max_axis0 (map gather_argument (map NDArray arrs)) = Returns m"
      and len: "length m = k"
      and def: "m = foldl (map2 max) (shape (hd arrs)) (map shape (tl arrs))"
      and up: "\<forall>a \<in> set arrs. list_all2 (\<le>) (shape a) m"
      and le: "\<forall>a \<in> set arrs. prod_list (shape a) \<le> prod_list m"
    by blast
  from len pos have "m \<noteq> []" by auto
  with m have "gather_buff rt n (map gather_argument (map NDArray arrs)) d
               = Returns (np_empty rt [n, prod_list m] d)"
    by (simp add: gather_buff_def np_product_def)
  with len def up le show ?thesis by blast
qed

text \<open>
  After the typed gather of messages that have the element type of the buffer and fit
  their blocks, row \<open>r\<close> of the buffer holds what rank \<open>r\<close> sent, from its start on.
\<close>

lemma gathered_rows:
  assumes len: "length sendbufs = n" and pos: "0 < n"
    and dt: "\<forall>r < n. dtype (sendbufs ! r) = d"
    and fits: "\<forall>r < n. length (data (sendbufs ! r)) \<le> m"
  shows "\<exists>buff' rows.
           comm_Gatherv rt sendbufs (np_empty rt [n, m] d) = Returns buff'
           \<and> iter_rows buff' = Returns rows
           \<and> length rows = n
           \<and> (\<forall>r < n. \<exists>rest. length (data (sendbufs ! r)) + length rest = m
                 \<and> rows ! r = \<lparr>shape = [m], dtype = d, data = data (sendbufs ! r) @ rest\<rparr>)"
proof -
  let ?old = "map (uninit rt) [0..<n * m]"
  let ?block = "\<lambda>r. take m (drop (r * m) ?old)"
  let ?rest = "\<lambda>r. drop (length (data (sendbufs ! r))) (?block r)"
  let ?filled = "map (\<lambda>r. data (sendbufs ! r) @ ?rest r) [0..<n]"
  let ?buff' = "\<lparr>shape = [n, m], dtype = d, data = concat ?filled\<rparr>"
  let ?rows = "map (\<lambda>r. \<lparr>shape = [m], dtype = d,
                             data = take m (drop (r * m) (concat ?filled))\<rparr>) [0..<n]"
  have blen: "r < n \<Longrightarrow> length (?block r) = m" for r
    using length_block_of_buffer [of r n ?old m] by simp
  have "\<forall>r \<in> set [0..<n]. receive_block rt d (?block r) (sendbufs ! r)
                               = Some (data (sendbufs ! r) @ ?rest r)"
  proof
    fix r assume "r \<in> set [0..<n]"
    then have r: "r < n" by simp
    with dt have d: "dtype (sendbufs ! r) = d" by blast
    from r fits have "length (data (sendbufs ! r)) \<le> m" by blast
    with blen [OF r] have "length (data (sendbufs ! r)) \<le> length (?block r)" by simp
    from receive_block_fits [OF d this]
    show "receive_block rt d (?block r) (sendbufs ! r) = Some (data (sendbufs ! r) @ ?rest r)" .
  qed
  then have filled: "those (map (\<lambda>r. receive_block rt d (?block r) (sendbufs ! r)) [0..<n])
                     = Some ?filled"
    by (rule those_map_eq)
  have count: "length (data (np_empty rt [n, m] d)) = n * m" "dtype (np_empty rt [n, m] d) = d"
    "data (np_empty rt [n, m] d) = ?old"
    by (simp_all add: np_empty_def)
  from pos have div: "n * m div n = m" "n * m mod n = 0" by simp_all
  have call: "comm_Gatherv rt sendbufs (np_empty rt [n, m] d)
              = Returns ((np_empty rt [n, m] d)\<lparr>data := concat ?filled\<rparr>)"
    unfolding comm_Gatherv_def Let_def len count div using pos by (simp add: filled)
  have buff': "(np_empty rt [n, m] d)\<lparr>data := concat ?filled\<rparr> = ?buff'"
    by (simp add: np_empty_def)
  have rows: "iter_rows ?buff' = Returns ?rows"
    by (simp add: iter_rows_def)
  have all: "\<forall>b \<in> set ?filled. length b = m"
  proof
    fix b assume "b \<in> set ?filled"
    then obtain r where r: "r < n" and b: "b = data (sendbufs ! r) @ ?rest r" by auto
    from r fits have "length (data (sendbufs ! r)) \<le> m" by blast
    with blen [OF r] show "length b = m" unfolding b by simp
  qed
  have row: "r < n \<Longrightarrow> take m (drop (r * m) (concat ?filled)) = ?filled ! r" for r
    using concat_block [OF all, of r] by simp
  have "\<forall>r < n. \<exists>rest. length (data (sendbufs ! r)) + length rest = m
          \<and> ?rows ! r = \<lparr>shape = [m], dtype = d, data = data (sendbufs ! r) @ rest\<rparr>"
  proof (intro allI impI)
    fix r assume r: "r < n"
    then have "?rows ! r = \<lparr>shape = [m], dtype = d, data = data (sendbufs ! r) @ ?rest r\<rparr>"
      using row [OF r] by simp
    moreover from r fits have "length (data (sendbufs ! r)) \<le> m" by blast
    with blen [OF r] have "length (data (sendbufs ! r)) + length (?rest r) = m" by simp
    ultimately
    show "\<exists>rest. length (data (sendbufs ! r)) + length rest = m
            \<and> ?rows ! r = \<lparr>shape = [m], dtype = d, data = data (sendbufs ! r) @ rest\<rparr>"
      by blast
  qed
  moreover have "length ?rows = n" by simp
  ultimately show ?thesis using call buff' rows by auto
qed

text \<open>What a rank sends: its elements, or the one element of the dummy.\<close>

lemma dtype_substitute_dummy [simp]: "dtype (substitute_dummy rt a) = dtype a"
  by (simp add: substitute_dummy_def np_empty_def)

lemma gather_sendbuf_length:
  assumes "wf_ndarray a"
  shows "length (data (ravel (substitute_dummy rt a)))
         = (if np_all (shape a) then prod_list (shape a) else 1)"
  using assms by (simp add: ravel_def substitute_dummy_def np_empty_def wf_ndarray_def)

lemma gather_sendbuf_fits:
  assumes wf: "wf_ndarray a" and le: "prod_list (shape a) \<le> m" and pos: "0 < m"
  shows "length (data (ravel (substitute_dummy rt a))) \<le> m"
  using le pos by (simp add: gather_sendbuf_length [OF wf])

text \<open>
  Cutting the first \<open>product(shape)\<close> elements out of the row of a rank and reshaping
  them gives the rank's array back.
\<close>

lemma slice_reshape_row:
  assumes wf: "wf_ndarray a"
  shows "reshape (slice_to \<lparr>shape = [m], dtype = dtype a,
                            data = data (ravel (substitute_dummy rt a)) @ rest\<rparr>
                            (prod_list (shape a))) (shape a)
         = Returns a"
proof (cases "np_all (shape a)")
  case True
  from wf have l: "length (data a) = prod_list (shape a)" by (simp add: wf_ndarray_def)
  with True show ?thesis
    by (simp add: reshape_def slice_to_def substitute_dummy_def ravel_def)
next
  case False
  then have "0 \<in> set (shape a)" by (auto simp: np_all_def)
  then have z: "prod_list (shape a) = 0" by (simp add: prod_list_zero_iff)
  with wf have "data a = []" by (simp add: wf_ndarray_def)
  with z show ?thesis by (simp add: reshape_def slice_to_def)
qed

lemma gather_loop_arrays:
  assumes "list_all2 (\<lambda>row a. shape a \<noteq> []
             \<and> reshape (slice_to row (prod_list (shape a))) (shape a) = Returns a) rows arrs"
  shows "gather_loop rows (map gather_argument (map NDArray arrs)) acc
         = Returns (acc @ map NDArray arrs)"
  using assms
  by (induction arbitrary: acc rule: list_all2_induct) (simp_all add: np_product_def)

text \<open>
  The steps of the root for arrays of one positive number of dimensions and one element
  type, not all of them empty along the same axis: the buffer, the typed gather into
  it, its rows, and the array cut out of each row.
\<close>

lemma gather_root_steps:
  assumes ne: "arrs \<noteq> []"
    and wf: "\<forall>a \<in> set arrs. wf_ndarray a"
    and same: "\<forall>a \<in> set arrs. length (shape a) = k"
    and pos: "0 < k"
    and dt: "\<forall>a \<in> set arrs. dtype a = d"
    and axes: "\<forall>i < k. \<exists>a \<in> set arrs. 0 < shape a ! i"
  shows "\<exists>buff buff' rows.
           gather_buff rt (length arrs) (map gather_argument (map NDArray arrs)) d = Returns buff
           \<and> comm_Gatherv rt (map (\<lambda>a. ravel (substitute_dummy rt a)) arrs) buff = Returns buff'
           \<and> iter_rows buff' = Returns rows
           \<and> length rows = length arrs
           \<and> (\<forall>r < length arrs.
                 reshape (slice_to (rows ! r) (prod_list (shape (arrs ! r)))) (shape (arrs ! r))
                 = Returns (arrs ! r))"
proof -
  let ?sendbufs = "map (\<lambda>a. ravel (substitute_dummy rt a)) arrs"
  from gather_buff_arrays [OF ne same pos] obtain m
    where buff: "gather_buff rt (length arrs) (map gather_argument (map NDArray arrs)) d
                 = Returns (np_empty rt [length arrs, prod_list m] d)"
      and len: "length m = k"
      and up: "\<forall>a \<in> set arrs. list_all2 (\<le>) (shape a) m"
      and le: "\<forall>a \<in> set arrs. prod_list (shape a) \<le> prod_list m"
    by blast
  from prod_list_pos_axes [OF len up axes] have mpos: "0 < prod_list m" .
  from ne have n: "0 < length arrs" by simp
  have ls: "length ?sendbufs = length arrs" by simp
  have sdt: "\<forall>r < length arrs. dtype (?sendbufs ! r) = d"
    using dt by (simp add: ravel_def)
  have sfit: "\<forall>r < length arrs. length (data (?sendbufs ! r)) \<le> prod_list m"
  proof (intro allI impI)
    fix r assume r: "r < length arrs"
    then have mem: "arrs ! r \<in> set arrs" by simp
    with wf le have "wf_ndarray (arrs ! r)" "prod_list (shape (arrs ! r)) \<le> prod_list m"
      by blast+
    from gather_sendbuf_fits [OF this mpos, of rt] r
    show "length (data (?sendbufs ! r)) \<le> prod_list m" by simp
  qed
  from gathered_rows [OF ls n sdt sfit, of rt] obtain buff' rows
    where call: "comm_Gatherv rt ?sendbufs (np_empty rt [length arrs, prod_list m] d)
                 = Returns buff'"
      and rows: "iter_rows buff' = Returns rows"
      and lr: "length rows = length arrs"
      and row: "\<forall>r < length arrs. \<exists>rest.
                  length (data (?sendbufs ! r)) + length rest = prod_list m
                  \<and> rows ! r = \<lparr>shape = [prod_list m], dtype = d,
                                 data = data (?sendbufs ! r) @ rest\<rparr>"
    by blast
  have "\<forall>r < length arrs.
          reshape (slice_to (rows ! r) (prod_list (shape (arrs ! r)))) (shape (arrs ! r))
          = Returns (arrs ! r)"
  proof (intro allI impI)
    fix r assume r: "r < length arrs"
    with row obtain rest
      where rr: "rows ! r = \<lparr>shape = [prod_list m], dtype = d,
                             data = data (?sendbufs ! r) @ rest\<rparr>"
      by blast
    from r have mem: "arrs ! r \<in> set arrs" by simp
    from r have sb: "?sendbufs ! r = ravel (substitute_dummy rt (arrs ! r))" by simp
    from mem wf have w: "wf_ndarray (arrs ! r)" by blast
    from mem dt have d: "d = dtype (arrs ! r)" by simp
    from slice_reshape_row [OF w, of "prod_list m" rt rest] rr sb
    show "reshape (slice_to (rows ! r) (prod_list (shape (arrs ! r)))) (shape (arrs ! r))
          = Returns (arrs ! r)"
      unfolding d by simp
  qed
  with buff call rows lr show ?thesis by blast
qed

lemma gather_root_arrays:
  assumes ne: "arrs \<noteq> []"
    and wf: "\<forall>a \<in> set arrs. wf_ndarray a"
    and same: "\<forall>a \<in> set arrs. length (shape a) = k"
    and pos: "0 < k"
    and dt: "\<forall>a \<in> set arrs. dtype a = dtype obj"
    and axes: "\<forall>i < k. \<exists>a \<in> set arrs. 0 < shape a ! i"
  shows "gather_root rt (map NDArray arrs) (map gather_argument (map NDArray arrs)) obj
         = Returns (PyList (map NDArray arrs))"
proof -
  from gather_root_steps [OF ne wf same pos dt axes, of rt] obtain buff buff' rows
    where buff: "gather_buff rt (length arrs) (map gather_argument (map NDArray arrs)) (dtype obj)
                 = Returns buff"
      and call: "comm_Gatherv rt (map (\<lambda>a. ravel (substitute_dummy rt a)) arrs) buff
                 = Returns buff'"
      and rows: "iter_rows buff' = Returns rows"
      and lr: "length rows = length arrs"
      and row: "\<forall>r < length arrs.
                 reshape (slice_to (rows ! r) (prod_list (shape (arrs ! r)))) (shape (arrs ! r))
                 = Returns (arrs ! r)"
    by blast
  from same pos have "\<forall>r < length arrs. shape (arrs ! r) \<noteq> []" by fastforce
  with lr row
  have "list_all2 (\<lambda>row a. shape a \<noteq> []
          \<and> reshape (slice_to row (prod_list (shape a))) (shape a) = Returns a) rows arrs"
    by (simp add: list_all2_conv_all_nth)
  from gather_loop_arrays [OF this, of "[]"]
  have loop: "gather_loop rows (map gather_argument (map NDArray arrs)) []
              = Returns (map NDArray arrs)"
    by simp
  show ?thesis
    unfolding gather_root_def
    by (simp add: buff gather_sendbufs_arrays call rows loop del: map_map)
qed

lemma comm_gather_shapes:
  assumes "root < length objs"
    and "sum_list (map (pickle_size rt) (map gather_argument objs)) \<le> transport_ceiling"
  shows "comm_gather rt (map gather_argument objs) root rank
         = (if rank = root then Returns (PyList (map gather_argument objs)) else Returns PyNone)"
  using assms by (simp add: comm_gather_def)

lemma root_receives_arrays:
  assumes root: "root < length arrs"
    and same: "\<forall>a \<in> set arrs. length (shape a) = k"
    and pos: "0 < k"
    and fits: "sum_list (map (pickle_size rt) (map gather_argument (map NDArray arrs)))
               \<le> transport_ceiling"
  shows "root_receives rt (map NDArray arrs) root"
proof -
  from root have ne: "arrs \<noteq> []" by auto
  from root have r': "root < length (map NDArray arrs)" by simp
  from gather_buff_arrays [OF ne same pos, of rt "length arrs" "dtype (arrs ! root)"]
  obtain buff where "gather_buff rt (length arrs) (map gather_argument (map NDArray arrs))
                       (dtype (arrs ! root)) = Returns buff"
    by blast
  with root comm_gather_shapes [OF r' fits, of root] show ?thesis
    by (simp add: root_receives_def gather_sendbufs_arrays del: map_map)
qed

lemma gather_root_result:
  assumes root: "root < length arrs"
    and wf: "\<forall>a \<in> set arrs. wf_ndarray a"
    and same: "\<forall>a \<in> set arrs. length (shape a) = k"
    and pos: "0 < k"
    and dt: "\<forall>a \<in> set arrs. dtype a = dtype (arrs ! root)"
    and axes: "\<forall>i < k. \<exists>a \<in> set arrs. 0 < shape a ! i"
    and fits: "sum_list (map (pickle_size rt) (map gather_argument (map NDArray arrs)))
               \<le> transport_ceiling"
  shows "gather rt (map NDArray arrs) root root = Returns (PyList (map NDArray arrs))"
proof -
  from root have ne: "arrs \<noteq> []" by auto
  from root have r': "root < length (map NDArray arrs)" by simp
  from dt have dt': "\<forall>a \<in> set arrs. dtype a = dtype (substitute_dummy rt (arrs ! root))"
    by simp
  show ?thesis
    using root comm_gather_shapes [OF r' fits, of root]
      gather_root_arrays [OF ne wf same pos dt' axes, of rt]
    by (simp add: gather_def del: map_map)
qed

text \<open>
  C2, as amended.  For every gather of well-formed arrays that share one positive number
  of dimensions and one element type, and that are not all empty along the same axis,
  with a valid root and the generic gather of the shapes within the ceiling of the
  transport: the root returns the list, in rank order, whose entry \<open>r\<close> is the array of
  rank \<open>r\<close>, with its shape, its element type and its contents; the entry is the first
  \<open>product(shape r)\<close> elements of row \<open>r\<close> of the receive buffer after the typed gather,
  reshaped to the shape of rank \<open>r\<close>.  Every other rank returns \<open>None\<close>.
\<close>

theorem gather_arrays:
  assumes root: "root < length arrs"
    and wf: "\<forall>a \<in> set arrs. wf_ndarray a"
    and same: "\<forall>a \<in> set arrs. length (shape a) = k"
    and pos: "0 < k"
    and dt: "\<forall>a \<in> set arrs. dtype a = dtype (arrs ! root)"
    and axes: "\<forall>i < k. \<exists>a \<in> set arrs. 0 < shape a ! i"
    and fits: "sum_list (map (pickle_size rt) (map gather_argument (map NDArray arrs)))
               \<le> transport_ceiling"
  shows "gather rt (map NDArray arrs) root root = Returns (PyList (map NDArray arrs))
         \<and> (\<forall>rank < length arrs. rank \<noteq> root \<longrightarrow>
               gather rt (map NDArray arrs) root rank = Returns PyNone)
         \<and> (\<exists>buff buff' rows.
               gather_buff rt (length arrs) (map gather_argument (map NDArray arrs))
                 (dtype (arrs ! root)) = Returns buff
               \<and> comm_Gatherv rt (map (\<lambda>a. ravel (substitute_dummy rt a)) arrs) buff
                   = Returns buff'
               \<and> iter_rows buff' = Returns rows
               \<and> length rows = length arrs
               \<and> (\<forall>r < length arrs.
                     reshape (slice_to (rows ! r) (prod_list (shape (arrs ! r))))
                       (shape (arrs ! r))
                     = Returns (arrs ! r)))"
proof -
  from root have ne: "arrs \<noteq> []" by auto
  from root have r': "root < length (map NDArray arrs)" by simp
  note shapes = comm_gather_shapes [OF r' fits]
  have a: "gather rt (map NDArray arrs) root root = Returns (PyList (map NDArray arrs))"
    using root wf same pos dt axes fits by (rule gather_root_result)
  have b: "\<forall>rank < length arrs. rank \<noteq> root \<longrightarrow>
             gather rt (map NDArray arrs) root rank = Returns PyNone"
  proof (intro allI impI)
    fix rank assume "rank < length arrs" "rank \<noteq> root"
    then show "gather rt (map NDArray arrs) root rank = Returns PyNone"
      using shapes [of rank] root_receives_arrays [OF root same pos fits]
      by (simp add: gather_def del: map_map)
  qed
  from a b gather_root_steps [OF ne wf same pos dt axes, of rt]
  show ?thesis by blast
qed

text \<open>
  The gather of the specification: three ranks send one-dimensional arrays of lengths
  2, 5 and 3 to rank 0.
\<close>

theorem gather_arrays_witness:
  "gather example_runtime (map NDArray example_arrays) 0 0
     = Returns (PyList (map NDArray example_arrays))
   \<and> gather example_runtime (map NDArray example_arrays) 0 1 = Returns PyNone
   \<and> gather example_runtime (map NDArray example_arrays) 0 2 = Returns PyNone
   \<and> map shape example_arrays = [[2], [5], [3]]"
proof -
  have root: "0 < length example_arrays" by (simp add: example_arrays_def)
  have wf: "\<forall>a \<in> set example_arrays. wf_ndarray a"
    by (simp add: example_arrays_def wf_ndarray_def)
  have same: "\<forall>a \<in> set example_arrays. length (shape a) = 1"
    by (simp add: example_arrays_def)
  have dt: "\<forall>a \<in> set example_arrays. dtype a = dtype (example_arrays ! 0)"
    by (simp add: example_arrays_def)
  have axes: "\<forall>i < 1. \<exists>a \<in> set example_arrays. 0 < shape a ! i"
    by (simp add: example_arrays_def)
  have fits: "sum_list (map (pickle_size example_runtime)
                 (map gather_argument (map NDArray example_arrays))) \<le> transport_ceiling"
    by (simp add: example_arrays_def example_runtime_def transport_ceiling_def)
  note t = gather_arrays [OF root wf same _ dt axes fits]
  have a: "gather example_runtime (map NDArray example_arrays) 0 0
           = Returns (PyList (map NDArray example_arrays))"
    using t by simp
  have b: "\<forall>rank < length example_arrays. rank \<noteq> 0 \<longrightarrow>
             gather example_runtime (map NDArray example_arrays) 0 rank = Returns PyNone"
    using t by simp
  have l: "length example_arrays = 3" by (simp add: example_arrays_def)
  from b l have "gather example_runtime (map NDArray example_arrays) 0 1 = Returns PyNone"
    and "gather example_runtime (map NDArray example_arrays) 0 2 = Returns PyNone"
    by simp_all
  with a show ?thesis by (simp add: example_arrays_def)
qed

text \<open>
  The claim as it was stated fails when the ranks' arrays differ in their number of
  dimensions: with shapes \<open>(2,)\<close> and \<open>(1, 3)\<close> the root raises.
\<close>

theorem gather_ragged_counterexample:
  "gather example_runtime
     [NDArray \<lparr>shape = [2], dtype = ''int64'', data = [1, 2]\<rparr>,
      NDArray \<lparr>shape = [1, 3], dtype = ''int64'', data = [7, 8, 9]\<rparr>] 0 0
   = Raises ValueError"
  by (simp add: gather_def comm_gather_def example_runtime_def transport_ceiling_def
      gather_root_def gather_buff_def np_max_axis0_def shape_tuple_def)

subsection \<open>Gather of arrays with an empty dimension\<close>

lemma substitute_dummy_empty:
  assumes "\<not> np_all (shape a)"
  shows "substitute_dummy rt a = np_empty rt (replicate (length (shape a)) 1) (dtype a)"
    and "shape (substitute_dummy rt a) = replicate (length (shape a)) 1"
    and "data (substitute_dummy rt a) = [uninit rt 0]"
  using assms by (simp_all add: substitute_dummy_def np_empty_def)

text \<open>
  C4, as amended.  In every gather of well-formed arrays that share one number of
  dimensions and one element type, and that are not all empty along the same axis
  (valid root, the generic gather of the shapes within the ceiling), a rank whose array
  has an extent of zero sends, in the typed gather, a dummy in place of its array: an
  array of the same element type and the same number of dimensions, every extent 1, so
  one element.  The shape that the root holds for this rank is the rank's own shape,
  and the root's result has, at the index of the rank, an array of this shape, which
  is empty.
\<close>

theorem gather_empty_dimension:
  assumes root: "root < length arrs"
    and wf: "\<forall>a \<in> set arrs. wf_ndarray a"
    and same: "\<forall>a \<in> set arrs. length (shape a) = k"
    and dt: "\<forall>a \<in> set arrs. dtype a = dtype (arrs ! root)"
    and axes: "\<forall>i < k. \<exists>a \<in> set arrs. 0 < shape a ! i"
    and fits: "sum_list (map (pickle_size rt) (map gather_argument (map NDArray arrs)))
               \<le> transport_ceiling"
    and r: "r < length arrs"
    and empty: "\<not> np_all (shape (arrs ! r))"
  shows "(\<exists>sendbufs. gather_sendbufs rt (map NDArray arrs) = Some sendbufs
            \<and> sendbufs ! r = ravel (substitute_dummy rt (arrs ! r)))
         \<and> substitute_dummy rt (arrs ! r)
             = np_empty rt (replicate (length (shape (arrs ! r))) 1) (dtype (arrs ! r))
         \<and> shape (substitute_dummy rt (arrs ! r)) = replicate (length (shape (arrs ! r))) 1
         \<and> dtype (substitute_dummy rt (arrs ! r)) = dtype (arrs ! r)
         \<and> length (data (substitute_dummy rt (arrs ! r))) = 1
         \<and> (\<exists>shapes. comm_gather rt (map gather_argument (map NDArray arrs)) root root
                         = Returns (PyList shapes)
               \<and> shapes ! r = shape_tuple (shape (arrs ! r)))
         \<and> (\<exists>arr_list. gather rt (map NDArray arrs) root root = Returns (PyList arr_list)
               \<and> arr_list ! r = NDArray \<lparr>shape = shape (arrs ! r),
                                          dtype = dtype (arrs ! r), data = []\<rparr>)"
proof -
  from empty have "shape (arrs ! r) \<noteq> []" by (auto simp: np_all_def)
  with same r have pos: "0 < k" by fastforce
  from root have r': "root < length (map NDArray arrs)" by simp
  have send: "\<exists>sendbufs. gather_sendbufs rt (map NDArray arrs) = Some sendbufs
                \<and> sendbufs ! r = ravel (substitute_dummy rt (arrs ! r))"
    using r by (simp add: gather_sendbufs_arrays)
  note dummy = substitute_dummy_empty [OF empty, of rt]
  have shapes: "\<exists>shapes. comm_gather rt (map gather_argument (map NDArray arrs)) root root
                         = Returns (PyList shapes)
                  \<and> shapes ! r = shape_tuple (shape (arrs ! r))"
    using r comm_gather_shapes [OF r' fits, of root] by (simp del: map_map)
  from empty have "0 \<in> set (shape (arrs ! r))" by (auto simp: np_all_def)
  then have z: "prod_list (shape (arrs ! r)) = 0" by (simp add: prod_list_zero_iff)
  from wf r have "wf_ndarray (arrs ! r)" by simp
  with z have d: "data (arrs ! r) = []" by (simp add: wf_ndarray_def)
  have "arrs ! r = \<lparr>shape = shape (arrs ! r), dtype = dtype (arrs ! r), data = []\<rparr>"
    using d by simp
  with r have entry: "map NDArray arrs ! r
             = NDArray \<lparr>shape = shape (arrs ! r), dtype = dtype (arrs ! r), data = []\<rparr>"
    by simp
  from gather_root_result [OF root wf same pos dt axes fits]
  have "gather rt (map NDArray arrs) root root = Returns (PyList (map NDArray arrs))" .
  with entry have result: "\<exists>arr_list. gather rt (map NDArray arrs) root root
                             = Returns (PyList arr_list)
               \<and> arr_list ! r = NDArray \<lparr>shape = shape (arrs ! r),
                                          dtype = dtype (arrs ! r), data = []\<rparr>"
    by blast
  have one: "length (data (substitute_dummy rt (arrs ! r))) = 1"
    using dummy(3) by simp
  have dty: "dtype (substitute_dummy rt (arrs ! r)) = dtype (arrs ! r)"
    by (rule dtype_substitute_dummy)
  from send dummy(1) dummy(2) dty one shapes result show ?thesis by blast
qed

text \<open>
  The gather of the specification with an empty array: rank 0 sends an array of shape
  \<open>(0,)\<close>, rank 1 is the root.
\<close>

theorem gather_empty_dimension_witness:
  "\<not> np_all (shape (example_empty_arrays ! 0))
   \<and> shape (example_empty_arrays ! 0) = [0]
   \<and> shape (substitute_dummy example_runtime (example_empty_arrays ! 0)) = [1]
   \<and> (\<exists>arr_list. gather example_runtime (map NDArray example_empty_arrays) 1 1
                     = Returns (PyList arr_list)
          \<and> arr_list ! 0 = NDArray \<lparr>shape = [0], dtype = ''int64'', data = []\<rparr>)"
proof -
  have root: "1 < length example_empty_arrays" by (simp add: example_empty_arrays_def)
  have r: "0 < length example_empty_arrays" by (simp add: example_empty_arrays_def)
  have wf: "\<forall>a \<in> set example_empty_arrays. wf_ndarray a"
    by (simp add: example_empty_arrays_def wf_ndarray_def)
  have same: "\<forall>a \<in> set example_empty_arrays. length (shape a) = 1"
    by (simp add: example_empty_arrays_def)
  have dt: "\<forall>a \<in> set example_empty_arrays. dtype a = dtype (example_empty_arrays ! 1)"
    by (simp add: example_empty_arrays_def)
  have axes: "\<forall>i < 1. \<exists>a \<in> set example_empty_arrays. 0 < shape a ! i"
    by (simp add: example_empty_arrays_def)
  have fits: "sum_list (map (pickle_size example_runtime)
                 (map gather_argument (map NDArray example_empty_arrays))) \<le> transport_ceiling"
    by (simp add: example_empty_arrays_def example_runtime_def transport_ceiling_def)
  have empty: "\<not> np_all (shape (example_empty_arrays ! 0))"
    by (simp add: example_empty_arrays_def np_all_def)
  have s: "shape (example_empty_arrays ! 0) = [0]"
    and d: "dtype (example_empty_arrays ! 0) = ''int64''"
    by (simp_all add: example_empty_arrays_def)
  note t = gather_empty_dimension [OF root wf same dt axes fits r empty]
  from t have "shape (substitute_dummy example_runtime (example_empty_arrays ! 0))
               = replicate (length (shape (example_empty_arrays ! 0))) 1"
    by blast
  with s have dummy: "shape (substitute_dummy example_runtime (example_empty_arrays ! 0)) = [1]"
    by simp
  from t have "\<exists>arr_list. gather example_runtime (map NDArray example_empty_arrays) 1 1
                             = Returns (PyList arr_list)
               \<and> arr_list ! 0 = NDArray \<lparr>shape = shape (example_empty_arrays ! 0),
                                          dtype = dtype (example_empty_arrays ! 0), data = []\<rparr>"
    by blast
  with s d have "\<exists>arr_list. gather example_runtime (map NDArray example_empty_arrays) 1 1
                     = Returns (PyList arr_list)
          \<and> arr_list ! 0 = NDArray \<lparr>shape = [0], dtype = ''int64'', data = []\<rparr>"
    by simp
  with empty s dummy show ?thesis by blast
qed

text \<open>
  The claim as it was stated fails when the ranks' arrays differ in their number of
  dimensions: rank 0 holds an array of shape \<open>(2, 0)\<close>, rank 1 one of shape \<open>(1,)\<close>, and
  the root (rank 0) raises, so it has no result entry for rank 0.
\<close>

theorem gather_empty_dimension_counterexample:
  "\<not> np_all [2, 0]
   \<and> gather example_runtime
        [NDArray \<lparr>shape = [2, 0], dtype = ''int64'', data = []\<rparr>,
         NDArray \<lparr>shape = [1], dtype = ''int64'', data = [7]\<rparr>] 0 0
      = Raises ValueError"
  by (simp add: gather_def comm_gather_def example_runtime_def transport_ceiling_def
      gather_root_def gather_buff_def np_max_axis0_def shape_tuple_def np_all_def)

text \<open>
  When all arrays are empty along one axis, the rows of the buffer hold no element
  while every rank sends the one element of its dummy.  No message fits its block
  then, and the typed gather of the model fails: two ranks with arrays of shape
  \<open>(0,)\<close>.
\<close>

lemma gather_all_empty_example:
  "gather example_runtime
     [NDArray \<lparr>shape = [0], dtype = ''int64'', data = []\<rparr>,
      NDArray \<lparr>shape = [0], dtype = ''int64'', data = []\<rparr>] 0 0
   = Raises MPIError"
  by (simp add: gather_def comm_gather_def example_runtime_def transport_ceiling_def
      gather_root_def gather_buff_def np_max_axis0_def shape_tuple_def np_all_def
      np_product_def np_empty_def substitute_dummy_def gather_sendbufs_def ravel_def
      comm_Gatherv_def receive_block_def fill_block_def)

subsection \<open>The receive buffer of the root\<close>

lemma map2_max_pick:
  fixes xs ys :: "nat list"
  assumes same: "same_shape_except j xs ys"
  shows "map2 max xs ys = xs \<or> map2 max xs ys = ys"
proof -
  from same have len: "length xs = length ys"
    and off: "\<forall>i < length xs. i \<noteq> j \<longrightarrow> xs ! i = ys ! i"
    by (simp_all add: same_shape_except_def)
  show ?thesis
  proof (cases "j < length xs \<and> xs ! j < ys ! j")
    case True
    have "map2 max xs ys = ys"
    proof (rule nth_equalityI)
      show "length (map2 max xs ys) = length ys" using len by simp
    next
      fix i assume "i < length (map2 max xs ys)"
      then have i: "i < length xs" "i < length ys" using len by simp_all
      show "map2 max xs ys ! i = ys ! i"
      proof (cases "i = j")
        case True
        with \<open>j < length xs \<and> xs ! j < ys ! j\<close> i show ?thesis by simp
      next
        case False
        with off i show ?thesis by simp
      qed
    qed
    then show ?thesis ..
  next
    case False
    have "map2 max xs ys = xs"
    proof (rule nth_equalityI)
      show "length (map2 max xs ys) = length xs" using len by simp
    next
      fix i assume "i < length (map2 max xs ys)"
      then have i: "i < length xs" "i < length ys" using len by simp_all
      show "map2 max xs ys ! i = xs ! i"
      proof (cases "i = j")
        case True
        with False i show ?thesis by simp
      next
        case False
        with off i show ?thesis by simp
      qed
    qed
    then show ?thesis ..
  qed
qed

lemma foldl_map2_max_pick:
  fixes acc :: "nat list"
  assumes "\<forall>s \<in> set (acc # ss). \<forall>t \<in> set (acc # ss). same_shape_except j s t"
  shows "foldl (map2 max) acc ss \<in> set (acc # ss)"
  using assms
proof (induction ss arbitrary: acc)
  case Nil
  then show ?case by simp
next
  case (Cons u ss)
  from Cons.prems have "same_shape_except j acc u" by simp
  from map2_max_pick [OF this] have pick: "map2 max acc u = acc \<or> map2 max acc u = u" .
  then have sub: "set (map2 max acc u # ss) \<subseteq> set (acc # u # ss)" by auto
  have "\<forall>s \<in> set (map2 max acc u # ss). \<forall>t \<in> set (map2 max acc u # ss).
          same_shape_except j s t"
  proof (intro ballI)
    fix s t assume "s \<in> set (map2 max acc u # ss)" "t \<in> set (map2 max acc u # ss)"
    with sub have "s \<in> set (acc # u # ss)" "t \<in> set (acc # u # ss)" by blast+
    with Cons.prems show "same_shape_except j s t" by blast
  qed
  from Cons.IH [OF this]
  have "foldl (map2 max) (map2 max acc u) ss \<in> set (map2 max acc u # ss)" .
  with sub show ?case by auto
qed

text \<open>
  The buffer of the root under the invariant of the gather (one positive number of
  dimensions, all axes but at most one of equal extent on every rank): its element type
  is the one asked for, it has one row per rank, and a row holds as many elements as
  the largest of the ranks' arrays.
\<close>

lemma gather_buff_capacity:
  assumes ne: "arrs \<noteq> []"
    and same: "\<forall>a \<in> set arrs. length (shape a) = k"
    and pos: "0 < k"
    and axis: "\<forall>a \<in> set arrs. \<forall>b \<in> set arrs. same_shape_except j (shape a) (shape b)"
  shows "gather_buff rt (length arrs) (map gather_argument (map NDArray arrs)) d
           = Returns (np_empty rt
                        [length arrs, Max (set (map (\<lambda>a. prod_list (shape a)) arrs))] d)
         \<and> dtype (np_empty rt
                    [length arrs, Max (set (map (\<lambda>a. prod_list (shape a)) arrs))] d) = d
         \<and> length (data (np_empty rt
                    [length arrs, Max (set (map (\<lambda>a. prod_list (shape a)) arrs))] d))
             = length arrs * Max (set (map (\<lambda>a. prod_list (shape a)) arrs))"
proof -
  let ?counts = "set (map (\<lambda>a. prod_list (shape a)) arrs)"
  from gather_buff_arrays [OF ne same pos] obtain m
    where buff: "gather_buff rt (length arrs) (map gather_argument (map NDArray arrs)) d
                 = Returns (np_empty rt [length arrs, prod_list m] d)"
      and m: "m = foldl (map2 max) (shape (hd arrs)) (map shape (tl arrs))"
      and le: "\<forall>a \<in> set arrs. prod_list (shape a) \<le> prod_list m"
    by blast
  from ne have sh: "shape (hd arrs) # map shape (tl arrs) = map shape arrs"
    by (cases arrs) simp_all
  have "\<forall>s \<in> set (map shape arrs). \<forall>t \<in> set (map shape arrs). same_shape_except j s t"
    using axis by auto
  with sh have "\<forall>s \<in> set (shape (hd arrs) # map shape (tl arrs)).
                \<forall>t \<in> set (shape (hd arrs) # map shape (tl arrs)). same_shape_except j s t"
    by simp
  from foldl_map2_max_pick [OF this] m sh have "m \<in> set (map shape arrs)" by simp
  then have inn: "prod_list m \<in> ?counts" by auto
  have "Max ?counts = prod_list m"
  proof (rule Max_eqI)
    show "finite ?counts" by simp
    show "\<And>y. y \<in> ?counts \<Longrightarrow> y \<le> prod_list m" using le by auto
    show "prod_list m \<in> ?counts" by (rule inn)
  qed
  then have mx: "prod_list m = Max ?counts" by simp
  have "dtype (np_empty rt [length arrs, prod_list m] d) = d"
    and "length (data (np_empty rt [length arrs, prod_list m] d)) = length arrs * prod_list m"
    by (simp_all add: np_empty_def)
  with buff show ?thesis unfolding mx by simp
qed

text \<open>
  The typed gather into this buffer, for well-formed arrays of the buffer's element
  type the largest of which is not empty: it returns, and row \<open>r\<close> of the buffer holds
  from its start on what rank \<open>r\<close> sends, its flattened array or its dummy.
\<close>

lemma gather_buff_transfer:
  assumes ne: "arrs \<noteq> []"
    and wf: "\<forall>a \<in> set arrs. wf_ndarray a"
    and dt: "\<forall>a \<in> set arrs. dtype a = d"
    and cap: "capacity = Max (set (map (\<lambda>a. prod_list (shape a)) arrs))"
    and some: "0 < capacity"
  shows "\<exists>buff' rows.
           comm_Gatherv rt (map (\<lambda>a. ravel (substitute_dummy rt a)) arrs)
             (np_empty rt [length arrs, capacity] d) = Returns buff'
           \<and> iter_rows buff' = Returns rows
           \<and> length rows = length arrs
           \<and> (\<forall>r < length arrs. \<exists>rest.
                 data (rows ! r) = data (ravel (substitute_dummy rt (arrs ! r))) @ rest)"
proof -
  let ?sendbufs = "map (\<lambda>a. ravel (substitute_dummy rt a)) arrs"
  from ne have n: "0 < length arrs" by simp
  have ls: "length ?sendbufs = length arrs" by simp
  have sdt: "\<forall>r < length arrs. dtype (?sendbufs ! r) = d"
    using dt by (simp add: ravel_def)
  have sfit: "\<forall>r < length arrs. length (data (?sendbufs ! r)) \<le> capacity"
  proof (intro allI impI)
    fix r assume r: "r < length arrs"
    then have mem: "arrs ! r \<in> set arrs" by simp
    then have "prod_list (shape (arrs ! r)) \<in> set (map (\<lambda>a. prod_list (shape a)) arrs)"
      by auto
    then have le: "prod_list (shape (arrs ! r)) \<le> capacity"
      unfolding cap by (intro Max_ge) simp_all
    from mem wf have "wf_ndarray (arrs ! r)" by blast
    from gather_sendbuf_fits [OF this le some, of rt] r
    show "length (data (?sendbufs ! r)) \<le> capacity" by simp
  qed
  from gathered_rows [OF ls n sdt sfit, of rt] obtain buff' rows
    where call: "comm_Gatherv rt ?sendbufs (np_empty rt [length arrs, capacity] d)
                 = Returns buff'"
      and rows: "iter_rows buff' = Returns rows"
      and lr: "length rows = length arrs"
      and row: "\<forall>r < length arrs. \<exists>rest.
                  length (data (?sendbufs ! r)) + length rest = capacity
                  \<and> rows ! r = \<lparr>shape = [capacity], dtype = d,
                                 data = data (?sendbufs ! r) @ rest\<rparr>"
    by blast
  have "\<forall>r < length arrs. \<exists>rest.
          data (rows ! r) = data (ravel (substitute_dummy rt (arrs ! r))) @ rest"
  proof (intro allI impI)
    fix r assume r: "r < length arrs"
    with row obtain rest
      where "rows ! r = \<lparr>shape = [capacity], dtype = d, data = data (?sendbufs ! r) @ rest\<rparr>"
      by blast
    with r show "\<exists>rest. data (rows ! r)
                   = data (ravel (substitute_dummy rt (arrs ! r))) @ rest"
      by auto
  qed
  with call rows lr show ?thesis by blast
qed

text \<open>
  Three ranks with matrices of shapes \<open>(1, 2)\<close>, \<open>(3, 2)\<close> and \<open>(0, 2)\<close>: the buffer
  of the root has three rows of six elements, as many as the largest matrix holds.
\<close>

lemma gather_buff_capacity_example:
  "gather_buff example_runtime 3 (map gather_argument (map NDArray example_matrices)) ''int64''
     = Returns (np_empty example_runtime [3, 6] ''int64'')
   \<and> length (data (np_empty example_runtime [3, 6] ''int64'')) = 18"
proof -
  have ne: "example_matrices \<noteq> []" by (simp add: example_matrices_def)
  have same: "\<forall>a \<in> set example_matrices. length (shape a) = 2"
    by (simp add: example_matrices_def)
  have axis: "\<forall>a \<in> set example_matrices. \<forall>b \<in> set example_matrices.
                same_shape_except 0 (shape a) (shape b)"
    by (simp add: example_matrices_def same_shape_except_def less_Suc_eq)
  have mx: "Max (set (map (\<lambda>a. prod_list (shape a)) example_matrices)) = 6"
    by (simp add: example_matrices_def)
  have len: "length example_matrices = 3" by (simp add: example_matrices_def)
  from gather_buff_capacity [OF ne same _ axis, of example_runtime "''int64''"]
  show ?thesis unfolding mx len by simp
qed

lemma zero_dimensional_invariant: "same_shape_except j [] []"
  by (simp add: same_shape_except_def)

text \<open>
  C3.  The gather invariant holds for arrays without any dimension, but the root
  allocates no buffer for them: \<open>np.max(shapes, axis=0)\<close> is empty then, its
  \<open>np.product\<close> is the float \<open>1.0\<close>, and \<open>np.empty\<close> refuses it as an extent.  So the
  gather of two such arrays raises \<open>TypeError\<close> on the root, and so does the gather of
  one in a group of a single rank.
\<close>

theorem gather_zero_dimensional:
  "gather_buff example_runtime 2 [shape_tuple [], shape_tuple []] ''float64''
       = Raises TypeError
   \<and> gather example_runtime
        [NDArray \<lparr>shape = [], dtype = ''float64'', data = [5]\<rparr>,
         NDArray \<lparr>shape = [], dtype = ''float64'', data = [7]\<rparr>] 0 0
       = Raises TypeError
   \<and> gather example_runtime [NDArray \<lparr>shape = [], dtype = ''float64'', data = [5]\<rparr>] 0 0
       = Raises TypeError"
  by (simp add: gather_def comm_gather_def example_runtime_def transport_ceiling_def
      gather_root_def gather_buff_def np_max_axis0_def shape_tuple_def np_product_def)

subsection \<open>The registry\<close>

lemma hexdigit_inj: "i < 16 \<Longrightarrow> j < 16 \<Longrightarrow> hexdigit i = hexdigit j \<Longrightarrow> i = j"
proof -
  assume a: "i < 16" "j < 16" "hexdigit i = hexdigit j"
  have d: "distinct ''0123456789abcdef''" by simp
  have l: "length ''0123456789abcdef'' = 16" by simp
  from a d l show ?thesis
    unfolding hexdigit_def by (metis nth_eq_iff_index_eq)
qed

lemma hexdigits_length: "0 < length (hexdigits n)"
  by (induction n rule: hexdigits.induct) (subst hexdigits.simps, simp)

lemma hexdigits_single: "16 \<le> n \<Longrightarrow> 1 < length (hexdigits n)"
  using hexdigits_length [of "n div 16"] by (subst hexdigits.simps) simp

lemma hexdigits_inj: "hexdigits n = hexdigits m \<Longrightarrow> n = m"
proof (induction n arbitrary: m rule: hexdigits.induct)
  case (1 n)
  show ?case
  proof (cases "n < 16")
    case True
    then have ln: "length (hexdigits n) = 1" by (subst hexdigits.simps) simp
    have m16: "m < 16"
    proof (rule ccontr)
      assume "\<not> m < 16"
      then have "1 < length (hexdigits m)" using hexdigits_single [of m] by simp
      with ln "1.prems" show False by simp
    qed
    from True m16 "1.prems" have "hexdigit n = hexdigit m"
      by (simp add: hexdigits.simps [of n] hexdigits.simps [of m])
    with True m16 show ?thesis by (rule hexdigit_inj)
  next
    case False
    then have ln: "1 < length (hexdigits n)" using hexdigits_single [of n] by simp
    have m16: "\<not> m < 16"
    proof
      assume "m < 16"
      then have "length (hexdigits m) = 1" by (subst hexdigits.simps) simp
      with ln "1.prems" show False by simp
    qed
    from False m16 "1.prems"
    have eq: "hexdigits (n div 16) @ [hexdigit (n mod 16)] = hexdigits (m div 16) @ [hexdigit (m mod 16)]"
      by (simp add: hexdigits.simps [of n] hexdigits.simps [of m])
    then have a: "hexdigits (n div 16) = hexdigits (m div 16)" and b: "hexdigit (n mod 16) = hexdigit (m mod 16)"
      by simp_all
    from "1.IH" [OF False a] have d: "n div 16 = m div 16" .
    from b have r: "n mod 16 = m mod 16" by (intro hexdigit_inj) simp_all
    from d r show ?thesis by (metis div_mult_mod_eq)
  qed
qed

lemma hex_inj: "hex n = hex m \<Longrightarrow> n = m"
  by (simp add: hex_def hexdigits_inj)

lemma hex_eq_iff: "hex n = hex m \<longleftrightarrow> n = m"
  by (auto dest: hex_inj)

lemma isinstance_mono:
  "isinstance_Intracomm s c \<Longrightarrow> isinstance_Intracomm (s\<lparr>objects := objects s @ xs\<rparr>) c"
  by (simp add: isinstance_Intracomm_def nth_append)

lemma isinstance_registry_upd [simp]:
  "isinstance_Intracomm (s\<lparr>buffer_comm_registry := r\<rparr>) c = isinstance_Intracomm s c"
  by (simp add: isinstance_Intracomm_def)

lemma registry_inv_new_object:
  assumes inv: "registry_inv s"
  shows "registry_inv (new_object s cls)"
proof -
  let ?s' = "s\<lparr>objects := objects s @ [cls]\<rparr>"
  have mono: "isinstance_Intracomm s c \<Longrightarrow> isinstance_Intracomm ?s' c" for c
    by (rule isinstance_mono)
  have world: "isinstance_Intracomm ?s' (COMM_WORLD ?s')"
    using inv mono [of "COMM_WORLD s"] by (simp add: registry_inv_def)
  have dist: "distinct (map fst (buffer_comm_registry ?s'))"
    using inv by (simp add: registry_inv_def)
  have entries: "\<forall>(k, w) \<in> set (buffer_comm_registry ?s').
            isinstance_Intracomm ?s' w
            \<and> hex w \<notin> set (map fst (buffer_comm_registry ?s'))
            \<and> (\<exists>c < length (objects ?s'). k = hex c)"
  proof (clarify)
    fix k w assume "(k, w) \<in> set (buffer_comm_registry ?s')"
    then have old: "(k, w) \<in> set (buffer_comm_registry s)" by simp
    from inv old have a: "isinstance_Intracomm s w"
      and b: "hex w \<notin> set (map fst (buffer_comm_registry s))"
      and d: "\<exists>c < length (objects s). k = hex c"
      unfolding registry_inv_def by blast+
    from d have "\<exists>c < length (objects ?s'). k = hex c"
      by (auto intro: less_SucI)
    with mono [OF a] b
    show "isinstance_Intracomm ?s' w
            \<and> hex w \<notin> set (map fst (buffer_comm_registry ?s'))
            \<and> (\<exists>c < length (objects ?s'). k = hex c)" by simp
  qed
  show ?thesis
    unfolding new_object_def registry_inv_def using world dist entries by blast
qed

lemma registry_inv_wrap:
  assumes inv: "registry_inv s" and c: "isinstance_Intracomm s c"
  shows "registry_inv (snd (wrap_or_lookup s c))"
proof (cases "map_of (buffer_comm_registry s) (hex c)")
  case (Some w)
  with inv show ?thesis by (simp add: wrap_or_lookup_def)
next
  case None
  note nokey = None
  show ?thesis
  proof (cases "c \<in> set (map snd (buffer_comm_registry s))")
    case True
    with inv nokey show ?thesis by (simp add: wrap_or_lookup_def)
  next
    case False
    let ?w = "length (objects s)"
    let ?s' = "s\<lparr>objects := objects s @ [BufferComm c (class_of s c)],
                  buffer_comm_registry := buffer_comm_registry s @ [(hex c, ?w)]\<rparr>"
    have s': "snd (wrap_or_lookup s c) = ?s'"
      using nokey False by (simp add: wrap_or_lookup_def Let_def)
    have clt: "c < ?w" using c by (simp add: isinstance_Intracomm_def)
    have keyfresh: "hex c \<notin> set (map fst (buffer_comm_registry s))"
      using nokey by (simp add: map_of_eq_None_iff)
    have wkey: "hex ?w \<notin> set (map fst (buffer_comm_registry s))"
    proof
      assume "hex ?w \<in> set (map fst (buffer_comm_registry s))"
      then obtain k w where kw: "(k, w) \<in> set (buffer_comm_registry s)" and k: "k = hex ?w"
        by auto
      from inv kw obtain c' where "c' < ?w" "k = hex c'"
        unfolding registry_inv_def by blast
      with k have "c' = ?w" using hex_inj by simp
      with \<open>c' < ?w\<close> show False by simp
    qed
    have neww: "isinstance_Intracomm ?s' ?w"
      using c by (simp add: isinstance_Intracomm_def class_of_def)
    have world: "isinstance_Intracomm ?s' (COMM_WORLD ?s')"
      using inv by (simp add: registry_inv_def isinstance_Intracomm_def nth_append)
    have dist: "distinct (map fst (buffer_comm_registry ?s'))"
      using inv keyfresh by (simp add: registry_inv_def)
    have entries: "\<forall>(k, w) \<in> set (buffer_comm_registry ?s').
            isinstance_Intracomm ?s' w
            \<and> hex w \<notin> set (map fst (buffer_comm_registry ?s'))
            \<and> (\<exists>c' < length (objects ?s'). k = hex c')"
    proof (clarify)
      fix k w assume "(k, w) \<in> set (buffer_comm_registry ?s')"
      then consider (old) "(k, w) \<in> set (buffer_comm_registry s)" | (new) "k = hex c" "w = ?w"
        by auto
      then show "isinstance_Intracomm ?s' w
            \<and> hex w \<notin> set (map fst (buffer_comm_registry ?s'))
            \<and> (\<exists>c' < length (objects ?s'). k = hex c')"
      proof cases
        case old
        from inv old have a: "isinstance_Intracomm s w"
          and b: "hex w \<notin> set (map fst (buffer_comm_registry s))"
          and d: "\<exists>c' < length (objects s). k = hex c'"
          unfolding registry_inv_def by blast+
        from old False have "w \<noteq> c" by force
        then have "hex w \<noteq> hex c" using hex_inj by blast
        moreover from a have "isinstance_Intracomm ?s' w"
          by (simp add: isinstance_Intracomm_def nth_append)
        moreover from d have "\<exists>c' < length (objects ?s'). k = hex c'"
          by (auto intro: less_SucI)
        ultimately show ?thesis using b by simp
      next
        case new
        have "hex ?w \<noteq> hex c" using clt hex_inj by fastforce
        with new neww wkey clt show ?thesis by (auto intro: less_SucI)
      qed
    qed
    show ?thesis
      unfolding s' registry_inv_def using world dist entries by blast
  qed
qed

lemma registry_inv_get:
  assumes inv: "registry_inv s"
  shows "registry_inv (snd (get_BufferComm_obj s comm))"
proof (cases comm)
  case None
  from inv have "isinstance_Intracomm s (COMM_WORLD s)" by (simp add: registry_inv_def)
  with inv None show ?thesis by (simp add: get_BufferComm_obj_def registry_inv_wrap)
next
  case (Some c)
  with inv show ?thesis by (simp add: get_BufferComm_obj_def registry_inv_wrap)
qed

lemma registry_inv_run: "registry_inv s \<Longrightarrow> registry_inv (run s events)"
proof (induction s events rule: run.induct)
  case (1 s)
  then show ?case by simp
next
  case (2 s comm events)
  from "2.prems" have "registry_inv (snd (get_BufferComm_obj s comm))"
    by (rule registry_inv_get)
  then show ?case using "2.IH" by simp
next
  case (3 s cls events)
  from "3.prems" have "registry_inv (new_object s cls)"
    by (rule registry_inv_new_object)
  then show ?case using "3.IH" by simp
qed

lemma module_loaded_inv: "module_loaded s \<Longrightarrow> registry_inv s"
  by (simp add: module_loaded_def registry_inv_def)





lemma example_state_loaded: "module_loaded example_state"
  by (simp add: module_loaded_def example_state_def isinstance_Intracomm_def)

lemma example_run:
  "run example_state example_events
   = \<lparr>objects = [Dummy_Intracomm, Dummy_Intracomm, OtherClass ''int'',
                  BufferComm 1 Dummy_Intracomm, BufferComm 0 Dummy_Intracomm],
      COMM_WORLD = 0,
      buffer_comm_registry = [(hex 1, 3), (hex 0, 4)]\<rparr>"
  by (simp add: example_events_def example_state_def get_BufferComm_obj_def
      isinstance_Intracomm_def wrap_or_lookup_def class_of_def hex_eq_iff Let_def)


text \<open>
  C7.  In every state the module can reach, \<open>get_BufferComm_obj(None)\<close> goes on with
  \<open>MPI.COMM_WORLD\<close> in the place of its argument, so it does what
  \<open>get_BufferComm_obj(MPI.COMM_WORLD)\<close> does; and a call with an object that is no
  instance of \<open>MPI.Intracomm\<close> or \<open>dummyMPI.Intracomm\<close> raises \<open>TypeError\<close> and
  leaves the objects and the registry as they were.
\<close>

theorem get_BufferComm_obj_argument:
  assumes loaded: "module_loaded s0" and s: "s = run s0 events"
  shows "get_BufferComm_obj s None = wrap_or_lookup s (COMM_WORLD s)
         \<and> get_BufferComm_obj s None = get_BufferComm_obj s (Some (COMM_WORLD s))
         \<and> (\<not> isinstance_Intracomm s c \<longrightarrow>
                get_BufferComm_obj s (Some c) = (Inl TypeError, s))"
proof -
  from loaded s have "registry_inv s"
    by (simp add: module_loaded_inv registry_inv_run)
  then have "isinstance_Intracomm s (COMM_WORLD s)"
    by (simp add: registry_inv_def)
  then show ?thesis by (simp add: get_BufferComm_obj_def)
qed

text \<open>
  After lines 291 and 292 in the example process: \<open>get_BufferComm_obj(None)\<close> returns
  the wrapper of \<open>COMM_WORLD\<close>, and a call with the integer raises \<open>TypeError\<close>.
\<close>

theorem get_BufferComm_obj_argument_witness:
  "module_loaded example_state
   \<and> COMM_WORLD (run example_state example_events) = 0
   \<and> get_BufferComm_obj (run example_state example_events) None
       = get_BufferComm_obj (run example_state example_events) (Some 0)
   \<and> fst (get_BufferComm_obj (run example_state example_events) None) = Inr 4
   \<and> \<not> isinstance_Intracomm (run example_state example_events) 2
   \<and> get_BufferComm_obj (run example_state example_events) (Some 2)
       = (Inl TypeError, run example_state example_events)"
proof -
  let ?s = "run example_state example_events"
  have w: "COMM_WORLD ?s = 0" by (simp add: example_run)
  have n: "\<not> isinstance_Intracomm ?s 2"
    by (simp add: example_run isinstance_Intracomm_def)
  have v: "fst (wrap_or_lookup ?s 0) = Inr 4"
    by (simp add: example_run wrap_or_lookup_def hex_eq_iff)
  note t = get_BufferComm_obj_argument [OF example_state_loaded refl, of example_events 2]
  from t have a: "get_BufferComm_obj ?s None = wrap_or_lookup ?s (COMM_WORLD ?s)"
    by (rule conjunct1)
  from t have b: "get_BufferComm_obj ?s None = get_BufferComm_obj ?s (Some (COMM_WORLD ?s))"
    by (rule conjunct1 [OF conjunct2])
  from t n have c: "get_BufferComm_obj ?s (Some 2) = (Inl TypeError, ?s)"
    by blast
  from a v w have d: "fst (get_BufferComm_obj ?s None) = Inr 4" by simp
  from b w have e: "get_BufferComm_obj ?s None = get_BufferComm_obj ?s (Some 0)" by simp
  from example_state_loaded w e d n c show ?thesis by blast
qed

subsection \<open>Attribute access on the wrapper\<close>

lemma uses_comm_plain:
  assumes "name \<in> set (dir_of pr comm)" and "getattr_of pr comm name = Returns v"
    and "\<not> is_method v"
  shows "uses_comm pr comm name = Returns True"
  using assms by (simp add: uses_comm_def)

lemma uses_comm_other:
  assumes "name \<notin> set (dir_of pr comm)
           \<or> (\<exists>m. getattr_of pr comm name = Returns m \<and> is_method m)"
  shows "uses_comm pr comm name = Returns False"
  using assms by (auto simp: uses_comm_def)

text \<open>
  C8.  When the wrapped communicator lists the name in its \<open>dir\<close> and \<open>getattr\<close> gives a
  value for it that is not a method, then reading the attribute on the wrapper gives
  that value, and writing or deleting it on the wrapper is \<open>setattr\<close> or \<open>delattr\<close> on the
  communicator, the wrapper's own state staying as it was.  When the communicator does
  not list the name, or its value there is a method, the wrapper's own definition is
  used: \<open>super().__getattribute__\<close>, \<open>super().__setattr__\<close> and \<open>super().__delattr__\<close> on
  the wrapper, the communicator staying as it was.
\<close>

theorem BufferComm_attribute_delegation:
  "(name \<in> set (dir_of pr comm) \<and> getattr_of pr comm name = Returns v \<and> \<not> is_method v \<longrightarrow>
      BufferComm_getattribute pr comm self name = Returns v
      \<and> BufferComm_setattr pr comm self name x
          = (case setattr_of pr comm name x of
               Returns comm' \<Rightarrow> Returns (comm', self)
             | Raises e \<Rightarrow> Raises e
             | Stalls \<Rightarrow> Stalls)
      \<and> BufferComm_delattr pr comm self name
          = (case delattr_of pr comm name of
               Returns comm' \<Rightarrow> Returns (comm', self)
             | Raises e \<Rightarrow> Raises e
             | Stalls \<Rightarrow> Stalls))
   \<and> (name \<notin> set (dir_of pr comm)
        \<or> (\<exists>m. getattr_of pr comm name = Returns m \<and> is_method m) \<longrightarrow>
      BufferComm_getattribute pr comm self name = super_getattribute self name
      \<and> BufferComm_setattr pr comm self name x
          = Returns (comm, self\<lparr>instance_dict := (instance_dict self)(name \<mapsto> x)\<rparr>)
      \<and> BufferComm_delattr pr comm self name
          = (case super_delattr self name of
               Returns self' \<Rightarrow> Returns (comm, self')
             | Raises e \<Rightarrow> Raises e
             | Stalls \<Rightarrow> Stalls))"
proof (intro conjI impI)
  assume a: "name \<in> set (dir_of pr comm) \<and> getattr_of pr comm name = Returns v \<and> \<not> is_method v"
  then have u: "uses_comm pr comm name = Returns True" by (simp add: uses_comm_plain)
  from a u show "BufferComm_getattribute pr comm self name = Returns v"
    by (simp add: BufferComm_getattribute_def)
  from u show "BufferComm_setattr pr comm self name x
          = (case setattr_of pr comm name x of
               Returns comm' \<Rightarrow> Returns (comm', self)
             | Raises e \<Rightarrow> Raises e
             | Stalls \<Rightarrow> Stalls)"
    by (simp add: BufferComm_setattr_def)
  from u show "BufferComm_delattr pr comm self name
          = (case delattr_of pr comm name of
               Returns comm' \<Rightarrow> Returns (comm', self)
             | Raises e \<Rightarrow> Raises e
             | Stalls \<Rightarrow> Stalls)"
    by (simp add: BufferComm_delattr_def)
next
  assume "name \<notin> set (dir_of pr comm)
          \<or> (\<exists>m. getattr_of pr comm name = Returns m \<and> is_method m)"
  then have u: "uses_comm pr comm name = Returns False" by (rule uses_comm_other)
  from u show "BufferComm_getattribute pr comm self name = super_getattribute self name"
    by (simp add: BufferComm_getattribute_def)
  from u show "BufferComm_setattr pr comm self name x
          = Returns (comm, self\<lparr>instance_dict := (instance_dict self)(name \<mapsto> x)\<rparr>)"
    by (simp add: BufferComm_setattr_def super_setattr_def)
  from u show "BufferComm_delattr pr comm self name
          = (case super_delattr self name of
               Returns self' \<Rightarrow> Returns (comm, self')
             | Raises e \<Rightarrow> Raises e
             | Stalls \<Rightarrow> Stalls)"
    by (simp add: BufferComm_delattr_def)
qed

text \<open>
  On a wrapper around dummyMPI's \<open>COMM_WORLD\<close>: \<open>_rank\<close> is an instance attribute of the
  communicator, so the wrapper reads and writes it there; \<open>bcast\<close> is a method of the
  communicator, so the wrapper's own \<open>bcast\<close> is used.
\<close>

theorem BufferComm_attribute_delegation_witness:
  "''_rank'' \<in> set (dir_of dummy_protocol dummy_COMM_WORLD)
   \<and> getattr_of dummy_protocol dummy_COMM_WORLD ''_rank'' = Returns (Plain (PyInt 0))
   \<and> BufferComm_getattribute dummy_protocol dummy_COMM_WORLD example_wrapper ''_rank''
       = Returns (Plain (PyInt 0))
   \<and> BufferComm_setattr dummy_protocol dummy_COMM_WORLD example_wrapper ''_rank''
        (Plain (PyInt 3))
       = Returns ([(''_name'', Plain (PyStr ''dummyMPI_COMM_WORLD'')),
                   (''_rank'', Plain (PyInt 3)),
                   (''_size'', Plain (PyInt 1))], example_wrapper)
   \<and> getattr_of dummy_protocol dummy_COMM_WORLD ''bcast'' = Returns (BoundMethod ''bcast'')
   \<and> BufferComm_getattribute dummy_protocol dummy_COMM_WORLD example_wrapper ''bcast''
       = Returns (BoundMethod ''BufferComm.bcast'')"
proof -
  note t = BufferComm_attribute_delegation
  have d: "''_rank'' \<in> set (dir_of dummy_protocol dummy_COMM_WORLD)"
    by (simp add: dummy_protocol_def dummy_dir_def dummy_COMM_WORLD_def)
  have g: "getattr_of dummy_protocol dummy_COMM_WORLD ''_rank'' = Returns (Plain (PyInt 0))"
    by (simp add: dummy_protocol_def dummy_getattr_def dummy_COMM_WORLD_def
        dummy_properties_def)
  have s: "setattr_of dummy_protocol dummy_COMM_WORLD ''_rank'' (Plain (PyInt 3))
           = Returns [(''_name'', Plain (PyStr ''dummyMPI_COMM_WORLD'')),
                      (''_rank'', Plain (PyInt 3)),
                      (''_size'', Plain (PyInt 1))]"
    by (simp add: dummy_protocol_def dummy_setattr_def dummy_COMM_WORLD_def
        dummy_properties_def)
  have m: "getattr_of dummy_protocol dummy_COMM_WORLD ''bcast'' = Returns (BoundMethod ''bcast'')"
    by (simp add: dummy_protocol_def dummy_getattr_def dummy_COMM_WORLD_def
        dummy_properties_def dummy_methods_def)
  have own: "super_getattribute example_wrapper ''bcast'' = Returns (BoundMethod ''BufferComm.bcast'')"
    by (simp add: super_getattribute_def example_wrapper_def)
  from t [of "''_rank''" dummy_protocol dummy_COMM_WORLD "Plain (PyInt 0)" example_wrapper
            "Plain (PyInt 3)"] d g s
  have r1: "BufferComm_getattribute dummy_protocol dummy_COMM_WORLD example_wrapper ''_rank''
            = Returns (Plain (PyInt 0))"
    and r2: "BufferComm_setattr dummy_protocol dummy_COMM_WORLD example_wrapper ''_rank''
               (Plain (PyInt 3))
             = Returns ([(''_name'', Plain (PyStr ''dummyMPI_COMM_WORLD'')),
                         (''_rank'', Plain (PyInt 3)),
                         (''_size'', Plain (PyInt 1))], example_wrapper)"
    by simp_all
  from t [of "''bcast''" dummy_protocol dummy_COMM_WORLD "Plain PyNone" example_wrapper
            "Plain PyNone"] m own
  have r3: "BufferComm_getattribute dummy_protocol dummy_COMM_WORLD example_wrapper ''bcast''
            = Returns (BoundMethod ''BufferComm.bcast'')"
    by simp
  from d g r1 r2 m r3 show ?thesis by blast
qed

subsection \<open>The collectives of dummyMPI\<close>

text \<open>
  C9.  On the single-participant communicator of dummyMPI, for every input value,
  \<open>bcast\<close> and \<open>Bcast\<close> return the input unchanged, \<open>gather\<close> returns a one-element
  list holding the input, and \<open>scatter\<close> returns the first element of the input
  sequence (a list or a tuple that starts with \<open>x\<close>).
\<close>

theorem dummy_collectives_identity:
  "dummy_bcast v = Returns v
   \<and> dummy_Bcast v = Returns v
   \<and> dummy_gather v = Returns (PyList [v])
   \<and> dummy_scatter (PyList (x # xs)) = Returns x
   \<and> dummy_scatter (PyTuple (x # xs)) = Returns x"
  by (simp add: dummy_bcast_def dummy_Bcast_def dummy_gather_def dummy_scatter_def)

subsection \<open>The buffer collectives of dummyMPI\<close>

lemma contents_append:
  "\<forall>a \<in> refs v. a < length st \<Longrightarrow> contents (st @ ext) v = contents st v"
  by (induction st v rule: contents.induct) (simp_all add: nth_append)

lemma contents_update_other:
  "a0 \<notin> refs v \<Longrightarrow> contents (st[a0 := arr]) v = contents st v"
  by (induction st v rule: contents.induct) simp_all

lemma memo_ok_lookup:
  assumes "memo_ok n st m" and "map_of m a = Some a'"
  shows "n \<le> a'" and "a' < length st" and "st ! a' = st ! a"
proof -
  from assms(2) have "(a, a') \<in> set m" by (rule map_of_SomeD)
  with assms(1) show "n \<le> a'" and "a' < length st" and "st ! a' = st ! a"
    unfolding memo_ok_def by blast+
qed

lemma memo_ok_new:
  assumes ok: "memo_ok n st m" and a: "a < n"
  shows "memo_ok n (st @ [st ! a]) ((a, length st) # m)"
proof -
  from ok have n: "n \<le> length st"
    and old: "\<forall>(b, b') \<in> set m. b < n \<and> n \<le> b' \<and> b' < length st \<and> st ! b' = st ! b"
    by (simp_all add: memo_ok_def)
  have "\<forall>(b, b') \<in> set ((a, length st) # m).
          b < n \<and> n \<le> b' \<and> b' < length (st @ [st ! a])
          \<and> (st @ [st ! a]) ! b' = (st @ [st ! a]) ! b"
  proof (clarify)
    fix b b' assume "(b, b') \<in> set ((a, length st) # m)"
    then consider "b = a" "b' = length st" | "(b, b') \<in> set m" by auto
    then show "b < n \<and> n \<le> b' \<and> b' < length (st @ [st ! a])
               \<and> (st @ [st ! a]) ! b' = (st @ [st ! a]) ! b"
    proof cases
      case 1
      with a n show ?thesis by (simp add: nth_append)
    next
      case 2
      with old have "b < n" "n \<le> b'" "b' < length st" "st ! b' = st ! b" by blast+
      with n show ?thesis by (simp add: nth_append)
    qed
  qed
  with n show ?thesis by (simp add: memo_ok_def)
qed

text \<open>
  What a deep copy does, for a payload whose arrays were there when the copy began: the
  store only grows, the copy refers to new arrays only, and it has the contents of the
  payload.
\<close>

lemma deepcopy_props:
  "memo_ok n (fst sm) (snd sm) \<Longrightarrow> \<forall>a \<in> refs v. a < n \<Longrightarrow> deepcopy v sm = (v', sm') \<Longrightarrow>
     (\<exists>ext. fst sm' = fst sm @ ext) \<and> memo_ok n (fst sm') (snd sm')
     \<and> (\<forall>a \<in> refs v'. n \<le> a \<and> a < length (fst sm'))
     \<and> contents (fst sm') v' = contents (fst sm) v"
  and deepcopy_list_props:
  "memo_ok n (fst sm) (snd sm) \<Longrightarrow> \<forall>x \<in> set xs. \<forall>a \<in> refs x. a < n \<Longrightarrow>
   deepcopy_list xs sm = (ys, sm') \<Longrightarrow>
     (\<exists>ext. fst sm' = fst sm @ ext) \<and> memo_ok n (fst sm') (snd sm')
     \<and> (\<forall>y \<in> set ys. \<forall>a \<in> refs y. n \<le> a \<and> a < length (fst sm'))
     \<and> map (contents (fst sm')) ys = map (contents (fst sm)) xs"
proof (induction v sm and xs sm arbitrary: v' sm' and ys sm' rule: deepcopy_deepcopy_list.induct)
  case (1 sm)
  then show ?case by auto
next
  case (2 i sm)
  then show ?case by auto
next
  case (3 s sm)
  then show ?case by auto
next
  case (4 a sm)
  from "4.prems"(2) have a: "a < n" by simp
  from "4.prems"(1) have n: "n \<le> length (fst sm)" by (simp add: memo_ok_def)
  show ?case
  proof (cases "map_of (snd sm) a")
    case None
    with "4.prems"(3) have v': "v' = VArray (length (fst sm))"
      and sm': "sm' = (fst sm @ [fst sm ! a], (a, length (fst sm)) # snd sm)"
      by auto
    from memo_ok_new [OF "4.prems"(1) a] sm'
    have "memo_ok n (fst sm') (snd sm')" by simp
    with v' sm' a n show ?thesis by (simp add: nth_append)
  next
    case (Some a')
    with "4.prems"(3) have v': "v' = VArray a'" and sm': "sm' = sm" by auto
    from memo_ok_lookup [OF "4.prems"(1) Some] v' sm' "4.prems"(1)
    show ?thesis by simp
  qed
next
  case (5 xs sm)
  from "5.prems"(3) obtain ys where c: "deepcopy_list xs sm = (ys, sm')" and v': "v' = VList ys"
    by (auto split: prod.splits)
  from "5.prems"(2) have "\<forall>x \<in> set xs. \<forall>a \<in> refs x. a < n" by simp
  from "5.IH" [OF "5.prems"(1) this c] v' show ?case by simp
next
  case (6 xs sm)
  from "6.prems"(3) obtain ys where c: "deepcopy_list xs sm = (ys, sm')" and v': "v' = VTuple ys"
    by (auto split: prod.splits)
  from "6.prems"(2) have "\<forall>x \<in> set xs. \<forall>a \<in> refs x. a < n" by simp
  from "6.IH" [OF "6.prems"(1) this c] v' show ?case by simp
next
  case (7 sm)
  then show ?case by auto
next
  case (8 x xs sm)
  from "8.prems"(3) obtain y sm1 zs
    where c1: "deepcopy x sm = (y, sm1)" and c2: "deepcopy_list xs sm1 = (zs, sm')"
      and ys: "ys = y # zs"
    by (auto split: prod.splits)
  from "8.prems"(2) have rx: "\<forall>a \<in> refs x. a < n"
    and rxs: "\<forall>x' \<in> set xs. \<forall>a \<in> refs x'. a < n"
    by simp_all
  from "8.IH"(1) [OF "8.prems"(1) rx c1] obtain ext1
    where e1: "fst sm1 = fst sm @ ext1" and ok1: "memo_ok n (fst sm1) (snd sm1)"
      and ry: "\<forall>a \<in> refs y. n \<le> a \<and> a < length (fst sm1)"
      and cy: "contents (fst sm1) y = contents (fst sm) x"
    by blast
  from "8.IH"(2) [OF c1 [symmetric] ok1 rxs c2] obtain ext2
    where e2: "fst sm' = fst sm1 @ ext2" and ok2: "memo_ok n (fst sm') (snd sm')"
      and rzs: "\<forall>z \<in> set zs. \<forall>a \<in> refs z. n \<le> a \<and> a < length (fst sm')"
      and czs: "map (contents (fst sm')) zs = map (contents (fst sm1)) xs"
    by blast
  from "8.prems"(1) have n: "n \<le> length (fst sm)" by (simp add: memo_ok_def)
  have ext: "\<exists>ext. fst sm' = fst sm @ ext" using e1 e2 by simp
  from ry have "\<forall>a \<in> refs y. a < length (fst sm1)" by blast
  from contents_append [OF this, of ext2] e2 cy
  have cy': "contents (fst sm') y = contents (fst sm) x" by simp
  have "map (contents (fst sm1)) xs = map (contents (fst sm)) xs"
  proof (rule map_cong [OF refl])
    fix x' assume "x' \<in> set xs"
    with rxs n have "\<forall>a \<in> refs x'. a < length (fst sm)" by fastforce
    from contents_append [OF this, of ext1] e1
    show "contents (fst sm1) x' = contents (fst sm) x'" by simp
  qed
  with czs have czs': "map (contents (fst sm')) zs = map (contents (fst sm)) xs" by simp
  from ry e2 have ry': "\<forall>a \<in> refs y. n \<le> a \<and> a < length (fst sm')" by auto
  from ext ok2 ry' rzs cy' czs' ys show ?case by simp
qed

lemma those_map_Some [simp]: "those (map Some xs) = Some xs"
  by (induction xs) simp_all

lemma concat_chunks:
  "length xs = n * p \<Longrightarrow> concat (map (\<lambda>i. take p (drop (i * p) xs)) [0..<n]) = xs"
proof (induction n arbitrary: xs)
  case 0
  then show ?case by simp
next
  case (Suc n)
  have split: "[0..<Suc n] = 0 # map Suc [0..<n]"
    by (simp add: upt_conv_Cons map_Suc_upt del: upt_Suc)
  from Suc.prems have "length (drop p xs) = n * p" by simp
  from Suc.IH [OF this]
  have "concat (map (\<lambda>i. take p (drop (i * p) (drop p xs))) [0..<n]) = drop p xs" .
  moreover have "(\<lambda>i. take p (drop (Suc i * p) xs)) = (\<lambda>i. take p (drop (i * p) (drop p xs)))"
    by (simp add: add.commute)
  ultimately show ?case
    unfolding split by (simp add: comp_def del: upt_Suc)
qed

lemma chunk_length:
  assumes "i < n" and "length xs = n * p"
  shows "length (take p (drop (i * p) xs)) = p"
proof -
  from assms(1) have "Suc i \<le> n" by simp
  then have "Suc i * p \<le> n * p" by (rule mult_le_mono1)
  then have "p \<le> n * p - i * p" by simp
  with assms(2) show ?thesis by simp
qed

text \<open>Between equal shapes, broadcasting is copying.\<close>

lemma broadcast_data_same:
  "length xs = prod_list s \<Longrightarrow> broadcast_data s s xs = Some xs"
proof (induction s arbitrary: xs)
  case Nil
  then show ?case by simp
next
  case (Cons m ms)
  let ?p = "prod_list ms"
  from Cons.prems have len: "length xs = m * ?p" by simp
  have "map (\<lambda>i. broadcast_data ms ms (take ?p (drop (i * ?p) xs))) [0..<m]
        = map (\<lambda>i. Some (take ?p (drop (i * ?p) xs))) [0..<m]"
  proof (rule map_cong [OF refl])
    fix i assume "i \<in> set [0..<m]"
    then have "i < m" by simp
    from chunk_length [OF this len]
    show "broadcast_data ms ms (take ?p (drop (i * ?p) xs)) = Some (take ?p (drop (i * ?p) xs))"
      by (rule Cons.IH)
  qed
  also have "\<dots> = map Some (map (\<lambda>i. take ?p (drop (i * ?p) xs)) [0..<m])"
    by simp
  finally have "those (map (\<lambda>i. broadcast_data ms ms (take ?p (drop (i * ?p) xs))) [0..<m])
                = Some (map (\<lambda>i. take ?p (drop (i * ?p) xs)) [0..<m])"
    by (simp only: those_map_Some)
  with concat_chunks [OF len] show ?case by simp
qed

lemma prod_list_ones [simp]: "prod_list (replicate j (Suc 0)) = Suc 0"
  by (induction j) simp_all

text \<open>
  Axes of extent 1 in front do not count: what the source lacks of them is put in
  front, what it has too many is dropped.
\<close>

lemma align_shape_strip: "align_shape (replicate j 1 @ dst) (length dst) = dst"
proof (induction j)
  case 0
  show ?case by (simp add: align_shape.simps [of dst])
next
  case (Suc j)
  then show ?case
    by (simp add: align_shape.simps [of "Suc 0 # replicate j (Suc 0) @ dst"])
qed

lemma broadcast_to_leading_ones:
  assumes wf: "wf_ndarray a"
    and sh: "dst = replicate j 1 @ shape a \<or> shape a = replicate j 1 @ dst"
  shows "broadcast_to a dst = Some (data a)"
proof -
  from sh have p: "prod_list dst = prod_list (shape a)" by auto
  with wf have len: "length (data a) = prod_list dst" by (simp add: wf_ndarray_def)
  from sh have "align_shape (shape a) (length dst) = dst"
  proof
    assume d: "dst = replicate j 1 @ shape a"
    then show ?thesis by (simp add: align_shape.simps [of "shape a"])
  next
    assume "shape a = replicate j 1 @ dst"
    then show ?thesis by (simp only: align_shape_strip)
  qed
  with broadcast_data_same [OF len] show ?thesis by (simp add: broadcast_to_def)
qed

text \<open>An array of a single element is repeated over the whole shape.\<close>

lemma align_shape_ones:
  "\<forall>n \<in> set src. n = 1 \<Longrightarrow> align_shape src k = replicate k 1"
proof (induction src)
  case Nil
  show ?case by (simp add: align_shape.simps [of "[]"])
next
  case (Cons m ms)
  then have m: "m = 1" and ms: "\<forall>n \<in> set ms. n = 1" by simp_all
  from ms have rest: "replicate (length ms) 1 = ms" by (intro replicate_length_same) simp
  show ?case
  proof (cases "length (m # ms) \<le> k")
    case True
    then have "replicate (k - length (m # ms)) 1 @ m # ms
               = replicate (k - length (m # ms)) 1 @ replicate (length (m # ms)) 1"
      using m rest by simp
    also have "\<dots> = replicate k 1"
      using True by (simp only: replicate_add [symmetric]) simp
    finally show ?thesis using True by (simp add: align_shape.simps [of "m # ms"])
  next
    case False
    with m Cons.IH [OF ms] show ?thesis by (simp add: align_shape.simps [of "Suc 0 # ms"])
  qed
qed

lemma concat_replicate_replicate:
  "concat (replicate n (replicate p x)) = replicate (n * p) x"
  by (induction n) (simp_all add: replicate_add)

lemma broadcast_data_ones:
  "broadcast_data (replicate (length dst) 1) dst [x] = Some (replicate (prod_list dst) x)"
proof (induction dst)
  case Nil
  show ?case by simp
next
  case (Cons n ns)
  show ?case
  proof (cases "n = 1")
    case True
    with Cons.IH show ?thesis by simp
  next
    case False
    with Cons.IH show ?thesis by (simp add: concat_replicate_replicate)
  qed
qed

lemma broadcast_to_single:
  assumes wf: "wf_ndarray a" and ones: "\<forall>n \<in> set (shape a). n = 1"
  shows "broadcast_to a dst = Some (replicate (prod_list dst) (hd (data a)))"
proof -
  from ones have "replicate (length (shape a)) 1 = shape a"
    by (intro replicate_length_same) simp
  then have "prod_list (shape a) = 1" by (metis One_nat_def prod_list_ones)
  with wf have "length (data a) = 1" by (simp add: wf_ndarray_def)
  then have d: "data a = [hd (data a)]" by (cases "data a") simp_all
  from align_shape_ones [OF ones] broadcast_data_ones [of dst "hd (data a)"] d
  show ?thesis by (simp add: broadcast_to_def)
qed

lemma assign_slice_array:
  assumes "shape (st ! r) \<noteq> []" and "wf_ndarray (st ! s)"
    and "shape (st ! r) = replicate j 1 @ shape (st ! s)
         \<or> shape (st ! s) = replicate j 1 @ shape (st ! r)"
  shows "assign_slice rt st (VArray r) (VArray s)
         = Returns (VArray r,
                    st[r := (st ! r)\<lparr>data := map (np_cast rt (dtype (st ! s)) (dtype (st ! r)))
                                                  (data (st ! s))\<rparr>])"
  using assms(1) broadcast_to_leading_ones [OF assms(2,3)] by simp

lemma assign_slice_single:
  assumes "shape (st ! r) \<noteq> []" and "wf_ndarray (st ! s)"
    and "\<forall>n \<in> set (shape (st ! s)). n = 1"
  shows "assign_slice rt st (VArray r) (VArray s)
         = Returns (VArray r,
                    st[r := (st ! r)\<lparr>data := replicate (prod_list (shape (st ! r)))
                                (np_cast rt (dtype (st ! s)) (dtype (st ! r))
                                   (hd (data (st ! s))))\<rparr>])"
  using assms(1) broadcast_to_single [OF assms(2,3), of "shape (st ! r)"] by simp

lemma scatter_gather_copy:
  assumes send: "get_buffer sendbuf = Returns p"
    and recv: "get_buffer recvbuf = Returns VNone"
    and valid: "\<forall>a \<in> refs p. a < length st"
  shows "\<exists>v ext. scatter_gather rt st sendbuf recvbuf = Returns (v, st @ ext)
           \<and> contents (st @ ext) v = contents st p
           \<and> (\<forall>a \<in> refs v. length st \<le> a \<and> a < length (st @ ext))"
proof -
  obtain v st' m where c: "deepcopy p (st, []) = (v, st', m)"
    by (cases "deepcopy p (st, [])") auto
  have ok: "memo_ok (length st) (fst (st, [])) (snd (st, []))" by (simp add: memo_ok_def)
  from deepcopy_props [OF ok valid c] obtain ext
    where e: "st' = st @ ext"
      and r: "\<forall>a \<in> refs v. length st \<le> a \<and> a < length st'"
      and k: "contents st' v = contents st p"
    by auto
  from send recv c have "scatter_gather rt st sendbuf recvbuf = Returns (v, st')"
    by (simp add: scatter_gather_def)
  with e r k show ?thesis by blast
qed

text \<open>
  C10.  \<open>Gather\<close>, \<open>Gatherv\<close>, \<open>Scatter\<close>, \<open>Scatterv\<close> and \<open>Reduce\<close> of dummyMPI, and \<open>reduce\<close>
  on a value that is no scalar, are \<open>_scatter_gather\<close>.  Of a send buffer that is a list
  or a tuple only the first element is used, as the payload.  When the receive buffer
  is \<open>None\<close>, the call returns a deep copy of the payload: a value of the same contents
  that refers to new arrays only, the arrays of the caller staying as they are, so that
  no later change of an array of the caller changes what the result holds.  When the
  receive buffer is an array with at least one axis, the payload is assigned to it
  element by element, nothing else changes, and the receive buffer itself is returned:
  for a payload array of the buffer's shape (axes of extent 1 in front of either shape
  aside) every element of the buffer becomes the element of the payload at its
  position, converted to the element type of the buffer, which leaves it as it is when
  the two arrays have one element type; for a payload array of a single element every
  element of the buffer becomes that element, converted.
\<close>

theorem dummy_buffer_collectives:
  "dummy_Gather rt st sendbuf recvbuf = scatter_gather rt st sendbuf recvbuf
   \<and> dummy_Gatherv rt st sendbuf recvbuf = scatter_gather rt st sendbuf recvbuf
   \<and> dummy_Scatter rt st sendbuf recvbuf = scatter_gather rt st sendbuf recvbuf
   \<and> dummy_Scatterv rt st sendbuf recvbuf = scatter_gather rt st sendbuf recvbuf
   \<and> dummy_Reduce rt st sendbuf recvbuf = scatter_gather rt st sendbuf recvbuf
   \<and> (\<not> np_isscalar sendbuf \<longrightarrow>
        dummy_reduce rt st sendbuf = scatter_gather rt st sendbuf VNone)
   \<and> get_buffer (VList (x # xs)) = Returns x
   \<and> get_buffer (VTuple (x # xs)) = Returns x
   \<and> scatter_gather rt st (VList (x # xs)) recvbuf = scatter_gather rt st (VList [x]) recvbuf
   \<and> scatter_gather rt st (VTuple (x # xs)) recvbuf = scatter_gather rt st (VList [x]) recvbuf
   \<and> (get_buffer sendbuf = Returns p \<and> get_buffer recvbuf = Returns VNone
        \<and> (\<forall>a \<in> refs p. a < length st) \<longrightarrow>
        (\<exists>v ext. scatter_gather rt st sendbuf recvbuf = Returns (v, st @ ext)
           \<and> contents (st @ ext) v = contents st p
           \<and> (\<forall>a \<in> refs v. length st \<le> a \<and> a < length (st @ ext))
           \<and> (\<forall>a < length st. \<forall>arr. contents ((st @ ext)[a := arr]) v = contents st p)))
   \<and> (get_buffer sendbuf = Returns (VArray s) \<and> get_buffer recvbuf = Returns (VArray r)
        \<and> s < length st \<and> r < length st
        \<and> shape (st ! r) \<noteq> [] \<and> wf_ndarray (st ! s)
        \<and> (shape (st ! r) = replicate j 1 @ shape (st ! s)
            \<or> shape (st ! s) = replicate j 1 @ shape (st ! r)) \<longrightarrow>
        scatter_gather rt st sendbuf recvbuf
          = Returns (VArray r,
                     st[r := (st ! r)\<lparr>data := map (np_cast rt (dtype (st ! s)) (dtype (st ! r)))
                                                   (data (st ! s))\<rparr>])
        \<and> (dtype (st ! s) = dtype (st ! r) \<longrightarrow>
             scatter_gather rt st sendbuf recvbuf
               = Returns (VArray r, st[r := (st ! r)\<lparr>data := data (st ! s)\<rparr>])))
   \<and> (get_buffer sendbuf = Returns (VArray s) \<and> get_buffer recvbuf = Returns (VArray r)
        \<and> s < length st \<and> r < length st
        \<and> shape (st ! r) \<noteq> [] \<and> wf_ndarray (st ! s)
        \<and> (\<forall>n \<in> set (shape (st ! s)). n = 1) \<longrightarrow>
        scatter_gather rt st sendbuf recvbuf
          = Returns (VArray r,
                     st[r := (st ! r)\<lparr>data := replicate (prod_list (shape (st ! r)))
                                 (np_cast rt (dtype (st ! s)) (dtype (st ! r))
                                    (hd (data (st ! s))))\<rparr>]))"
proof -
  have through: "dummy_Gather rt st sendbuf recvbuf = scatter_gather rt st sendbuf recvbuf"
    "dummy_Gatherv rt st sendbuf recvbuf = scatter_gather rt st sendbuf recvbuf"
    "dummy_Scatter rt st sendbuf recvbuf = scatter_gather rt st sendbuf recvbuf"
    "dummy_Scatterv rt st sendbuf recvbuf = scatter_gather rt st sendbuf recvbuf"
    "dummy_Reduce rt st sendbuf recvbuf = scatter_gather rt st sendbuf recvbuf"
    by (simp_all add: dummy_Gather_def dummy_Gatherv_def dummy_Scatter_def
        dummy_Scatterv_def dummy_Reduce_def)
  have red: "\<not> np_isscalar sendbuf \<longrightarrow>
               dummy_reduce rt st sendbuf = scatter_gather rt st sendbuf VNone"
    by (simp add: dummy_reduce_def)
  have first: "get_buffer (VList (x # xs)) = Returns x" "get_buffer (VTuple (x # xs)) = Returns x"
    "scatter_gather rt st (VList (x # xs)) recvbuf = scatter_gather rt st (VList [x]) recvbuf"
    "scatter_gather rt st (VTuple (x # xs)) recvbuf = scatter_gather rt st (VList [x]) recvbuf"
    by (simp_all add: scatter_gather_def)
  have copy: "get_buffer sendbuf = Returns p \<and> get_buffer recvbuf = Returns VNone
        \<and> (\<forall>a \<in> refs p. a < length st) \<longrightarrow>
        (\<exists>v ext. scatter_gather rt st sendbuf recvbuf = Returns (v, st @ ext)
           \<and> contents (st @ ext) v = contents st p
           \<and> (\<forall>a \<in> refs v. length st \<le> a \<and> a < length (st @ ext))
           \<and> (\<forall>a < length st. \<forall>arr. contents ((st @ ext)[a := arr]) v = contents st p))"
  proof (intro impI, elim conjE)
    assume send: "get_buffer sendbuf = Returns p" and recv: "get_buffer recvbuf = Returns VNone"
      and valid: "\<forall>a \<in> refs p. a < length st"
    from scatter_gather_copy [OF send recv valid, of rt] obtain v ext
      where res: "scatter_gather rt st sendbuf recvbuf = Returns (v, st @ ext)"
        and k: "contents (st @ ext) v = contents st p"
        and fresh: "\<forall>a \<in> refs v. length st \<le> a \<and> a < length (st @ ext)"
      by blast
    have "\<forall>a < length st. \<forall>arr. contents ((st @ ext)[a := arr]) v = contents st p"
    proof (intro allI impI)
      fix a arr assume "a < length st"
      with fresh have "a \<notin> refs v" by auto
      from contents_update_other [OF this] k
      show "contents ((st @ ext)[a := arr]) v = contents st p" by simp
    qed
    with res k fresh
    show "\<exists>v ext. scatter_gather rt st sendbuf recvbuf = Returns (v, st @ ext)
           \<and> contents (st @ ext) v = contents st p
           \<and> (\<forall>a \<in> refs v. length st \<le> a \<and> a < length (st @ ext))
           \<and> (\<forall>a < length st. \<forall>arr. contents ((st @ ext)[a := arr]) v = contents st p)"
      by blast
  qed
  have into: "get_buffer sendbuf = Returns (VArray s) \<and> get_buffer recvbuf = Returns (VArray r)
        \<and> s < length st \<and> r < length st
        \<and> shape (st ! r) \<noteq> [] \<and> wf_ndarray (st ! s)
        \<and> (shape (st ! r) = replicate j 1 @ shape (st ! s)
            \<or> shape (st ! s) = replicate j 1 @ shape (st ! r)) \<longrightarrow>
        scatter_gather rt st sendbuf recvbuf
          = Returns (VArray r,
                     st[r := (st ! r)\<lparr>data := map (np_cast rt (dtype (st ! s)) (dtype (st ! r)))
                                                   (data (st ! s))\<rparr>])
        \<and> (dtype (st ! s) = dtype (st ! r) \<longrightarrow>
             scatter_gather rt st sendbuf recvbuf
               = Returns (VArray r, st[r := (st ! r)\<lparr>data := data (st ! s)\<rparr>]))"
  proof (intro impI, elim conjE)
    assume send: "get_buffer sendbuf = Returns (VArray s)"
      and recv: "get_buffer recvbuf = Returns (VArray r)"
      and ax: "shape (st ! r) \<noteq> []" and wf: "wf_ndarray (st ! s)"
      and sh: "shape (st ! r) = replicate j 1 @ shape (st ! s)
               \<or> shape (st ! s) = replicate j 1 @ shape (st ! r)"
    from send recv
    have "scatter_gather rt st sendbuf recvbuf = assign_slice rt st (VArray r) (VArray s)"
      by (simp add: scatter_gather_def)
    with assign_slice_array [OF ax wf sh, of rt]
    have res: "scatter_gather rt st sendbuf recvbuf
          = Returns (VArray r,
                     st[r := (st ! r)\<lparr>data := map (np_cast rt (dtype (st ! s)) (dtype (st ! r)))
                                                   (data (st ! s))\<rparr>])"
      by simp
    have "map (np_cast rt d d) ys = ys" for d ys
      by (induction ys) (simp_all add: np_cast_def)
    with res
    show "scatter_gather rt st sendbuf recvbuf
          = Returns (VArray r,
                     st[r := (st ! r)\<lparr>data := map (np_cast rt (dtype (st ! s)) (dtype (st ! r)))
                                                   (data (st ! s))\<rparr>])
        \<and> (dtype (st ! s) = dtype (st ! r) \<longrightarrow>
             scatter_gather rt st sendbuf recvbuf
               = Returns (VArray r, st[r := (st ! r)\<lparr>data := data (st ! s)\<rparr>]))"
      by simp
  qed
  have single: "get_buffer sendbuf = Returns (VArray s) \<and> get_buffer recvbuf = Returns (VArray r)
        \<and> s < length st \<and> r < length st
        \<and> shape (st ! r) \<noteq> [] \<and> wf_ndarray (st ! s)
        \<and> (\<forall>n \<in> set (shape (st ! s)). n = 1) \<longrightarrow>
        scatter_gather rt st sendbuf recvbuf
          = Returns (VArray r,
                     st[r := (st ! r)\<lparr>data := replicate (prod_list (shape (st ! r)))
                                 (np_cast rt (dtype (st ! s)) (dtype (st ! r))
                                    (hd (data (st ! s))))\<rparr>])"
  proof (intro impI, elim conjE)
    assume send: "get_buffer sendbuf = Returns (VArray s)"
      and recv: "get_buffer recvbuf = Returns (VArray r)"
      and ax: "shape (st ! r) \<noteq> []" and wf: "wf_ndarray (st ! s)"
      and ones: "\<forall>n \<in> set (shape (st ! s)). n = 1"
    from send recv
    have "scatter_gather rt st sendbuf recvbuf = assign_slice rt st (VArray r) (VArray s)"
      by (simp add: scatter_gather_def)
    with assign_slice_single [OF ax wf ones, of rt]
    show "scatter_gather rt st sendbuf recvbuf
          = Returns (VArray r,
                     st[r := (st ! r)\<lparr>data := replicate (prod_list (shape (st ! r)))
                                 (np_cast rt (dtype (st ! s)) (dtype (st ! r))
                                    (hd (data (st ! s))))\<rparr>])"
      by simp
  qed
  from through red first copy into single show ?thesis by blast
qed

text \<open>
  A receive buffer without dimensions takes no slice: the call raises \<open>IndexError\<close>.
\<close>

lemma scatter_gather_zero_dimensional:
  "shape (st ! r) = [] \<Longrightarrow> scatter_gather rt st (VArray s) (VArray r) = Raises IndexError"
  by (simp add: scatter_gather_def)

text \<open>
  On the example store: \<open>Gather\<close> of the array 0, wrapped in a list, without a receive
  buffer gives a new array of the same contents, and changing array 0 afterwards
  leaves it alone; \<open>Gather\<close> into array 1 writes the four elements there and returns
  array 1; \<open>Gather\<close> of the array 2, which holds the one element 300, into array 3 of
  the type \<open>int8\<close> writes 44 to each of its three elements; \<open>reduce\<close> of the list does
  what \<open>Gather\<close> without a receive buffer does.
\<close>

theorem dummy_buffer_collectives_witness:
  "get_buffer (VList [VArray 0, VInt 4]) = Returns (VArray 0)
   \<and> (\<exists>v ext. dummy_Gather example_runtime example_store (VList [VArray 0, VInt 4]) VNone
                  = Returns (v, example_store @ ext)
          \<and> contents (example_store @ ext) v
              = NDArray \<lparr>shape = [2, 2], dtype = ''int64'', data = [1, 2, 3, 4]\<rparr>
          \<and> contents ((example_store @ ext)[0 := \<lparr>shape = [1], dtype = ''int64'', data = [9]\<rparr>]) v
              = NDArray \<lparr>shape = [2, 2], dtype = ''int64'', data = [1, 2, 3, 4]\<rparr>)
   \<and> dummy_Gather example_runtime example_store (VArray 0) (VList [VArray 1])
       = Returns (VArray 1,
                  example_store[1 := \<lparr>shape = [2, 2], dtype = ''int64'', data = [1, 2, 3, 4]\<rparr>])
   \<and> dummy_Gather example_runtime example_store (VArray 2) (VArray 3)
       = Returns (VArray 3,
                  example_store[3 := \<lparr>shape = [3], dtype = ''int8'', data = [44, 44, 44]\<rparr>])
   \<and> \<not> np_isscalar (VList [VArray 0, VInt 4])
   \<and> dummy_reduce example_runtime example_store (VList [VArray 0, VInt 4])
       = dummy_Gather example_runtime example_store (VList [VArray 0, VInt 4]) VNone"
proof -
  let ?send = "VList [VArray 0, VInt 4]"
  note t1 = dummy_buffer_collectives [where rt = example_runtime and st = example_store
      and sendbuf = ?send and recvbuf = VNone and p = "VArray 0" and x = VNone and xs = "[]"
      and s = 0 and r = 0 and j = 0]
  have g: "get_buffer ?send = Returns (VArray 0)" by simp
  have valid: "\<forall>a \<in> refs (VArray 0). a < length example_store"
    by (simp add: example_store_def)
  have c0: "contents example_store (VArray 0)
            = NDArray \<lparr>shape = [2, 2], dtype = ''int64'', data = [1, 2, 3, 4]\<rparr>"
    by (simp add: example_store_def)
  have l: "0 < length example_store" by (simp add: example_store_def)
  from t1 have ga: "dummy_Gather example_runtime example_store ?send VNone
                    = scatter_gather example_runtime example_store ?send VNone"
    by blast
  from t1 g valid obtain v ext
    where res: "scatter_gather example_runtime example_store ?send VNone
                = Returns (v, example_store @ ext)"
      and k: "contents (example_store @ ext) v = contents example_store (VArray 0)"
      and frame: "\<forall>a < length example_store. \<forall>arr.
                    contents ((example_store @ ext)[a := arr]) v = contents example_store (VArray 0)"
    by auto
  from frame l
  have "contents ((example_store @ ext)[0 := \<lparr>shape = [1], dtype = ''int64'', data = [9]\<rparr>]) v
        = contents example_store (VArray 0)"
    by blast
  with ga res k c0
  have copy: "\<exists>v ext. dummy_Gather example_runtime example_store ?send VNone
                         = Returns (v, example_store @ ext)
          \<and> contents (example_store @ ext) v
              = NDArray \<lparr>shape = [2, 2], dtype = ''int64'', data = [1, 2, 3, 4]\<rparr>
          \<and> contents ((example_store @ ext)[0 := \<lparr>shape = [1], dtype = ''int64'', data = [9]\<rparr>]) v
              = NDArray \<lparr>shape = [2, 2], dtype = ''int64'', data = [1, 2, 3, 4]\<rparr>"
    by auto
  note t2 = dummy_buffer_collectives [where rt = example_runtime and st = example_store
      and sendbuf = "VArray 0" and recvbuf = "VList [VArray 1]" and p = VNone and x = VNone
      and xs = "[]" and s = 0 and r = 1 and j = 0]
  have pre: "get_buffer (VArray 0) = Returns (VArray 0)"
    "get_buffer (VList [VArray 1]) = Returns (VArray 1)"
    "0 < length example_store" "1 < length example_store"
    "shape (example_store ! 1) \<noteq> []"
    "wf_ndarray (example_store ! 0)"
    "shape (example_store ! 1) = replicate 0 1 @ shape (example_store ! 0)"
    "dtype (example_store ! 0) = dtype (example_store ! 1)"
    by (simp_all add: example_store_def wf_ndarray_def)
  from t2 have gb: "dummy_Gather example_runtime example_store (VArray 0) (VList [VArray 1])
                    = scatter_gather example_runtime example_store (VArray 0) (VList [VArray 1])"
    by blast
  from t2 pre
  have "scatter_gather example_runtime example_store (VArray 0) (VList [VArray 1])
        = Returns (VArray 1,
                   example_store[1 := (example_store ! 1)\<lparr>data := data (example_store ! 0)\<rparr>])"
    by blast
  with gb have into: "dummy_Gather example_runtime example_store (VArray 0) (VList [VArray 1])
       = Returns (VArray 1,
                  example_store[1 := \<lparr>shape = [2, 2], dtype = ''int64'', data = [1, 2, 3, 4]\<rparr>])"
    by (simp add: example_store_def)
  note t3 = dummy_buffer_collectives [where rt = example_runtime and st = example_store
      and sendbuf = "VArray 2" and recvbuf = "VArray 3" and p = VNone and x = VNone
      and xs = "[]" and s = 2 and r = 3 and j = 0]
  have pre3: "get_buffer (VArray 2) = Returns (VArray 2)"
    "get_buffer (VArray 3) = Returns (VArray 3)"
    "2 < length example_store" "3 < length example_store"
    "shape (example_store ! 3) \<noteq> []"
    "wf_ndarray (example_store ! 2)"
    "\<forall>n \<in> set (shape (example_store ! 2)). n = 1"
    by (simp_all add: example_store_def wf_ndarray_def)
  from t3 have gc: "dummy_Gather example_runtime example_store (VArray 2) (VArray 3)
                    = scatter_gather example_runtime example_store (VArray 2) (VArray 3)"
    by blast
  from t3 pre3
  have "scatter_gather example_runtime example_store (VArray 2) (VArray 3)
        = Returns (VArray 3,
                   example_store[3 := (example_store ! 3)\<lparr>data :=
                      replicate (prod_list (shape (example_store ! 3)))
                        (np_cast example_runtime (dtype (example_store ! 2))
                           (dtype (example_store ! 3)) (hd (data (example_store ! 2))))\<rparr>])"
    by blast
  with gc have single: "dummy_Gather example_runtime example_store (VArray 2) (VArray 3)
       = Returns (VArray 3,
                  example_store[3 := \<lparr>shape = [3], dtype = ''int8'', data = [44, 44, 44]\<rparr>])"
    by (simp add: example_store_def np_cast_def int_type_def numeral_3_eq_3)
  from t1 have red: "dummy_reduce example_runtime example_store ?send
                     = scatter_gather example_runtime example_store ?send VNone"
    by simp
  from g copy into single red ga show ?thesis by simp
qed
end
